theory Spec2Isabelle
  imports Complex_Main
begin

section \<open>Data model (types.ts)\<close>

text \<open>
  Timestamps are JavaScript numbers holding milliseconds since the epoch; they are
  modelled as integers. Strings are lists of 8-bit characters.
\<close>

datatype channel = Phone | Sms | Email | Whatsapp | Webchat | Other

datatype direction = Inbound | Outbound

datatype sentiment = Positive | Neutral | Negative

datatype entity_type = EDate | ETime | EProduct | EPrice | EPerson | ELocation | EOther

record extracted_entity =
  etype :: entity_type
  evalue :: string
  econfidence :: real

text \<open>
  An optional field of the source (\<open>fullContent?\<close>, \<open>sentiment?\<close>) is an
  \<open>option\<close>: \<open>None\<close> is \<open>undefined\<close>. The field \<open>id\<close> is \<open>iid\<close> here, and
  the fields of a key fact carry the prefix \<open>fact_\<close> where the name is taken.
\<close>

record interaction =
  iid :: string
  timestamp :: int
  channel :: channel
  direction :: direction
  summary :: string
  fullContent :: "string option"
  entities :: "extracted_entity list"
  sentiment :: "sentiment option"
  topics :: "string list"

datatype category = Preference | Commitment | Objection | Question | OtherCategory

record key_fact =
  fact_id :: string
  fact_text :: string
  fact_source :: string
  confidence :: real
  fact_timestamp :: int
  category :: category

record compaction_result =
  originalCount :: nat
  compactedCount :: nat
  summarized :: nat
  removed :: nat

section \<open>Rendering numbers and joining strings\<close>

definition digit_char :: "nat \<Rightarrow> char" where
  "digit_char d = ''0123456789'' ! d"

fun show_nat :: "nat \<Rightarrow> string" where
  "show_nat n = (if n < 10 then [digit_char n] else show_nat (n div 10) @ [digit_char (n mod 10)])"

declare show_nat.simps [simp del]

definition show_int :: "int \<Rightarrow> string" where
  "show_int i = (if i < 0 then CHR ''-'' # show_nat (nat (- i)) else show_nat (nat i))"

fun join :: "string \<Rightarrow> string list \<Rightarrow> string" where
  "join sep [] = []"
| "join sep [x] = x"
| "join sep (x # y # ys) = x @ sep @ join sep (y # ys)"

text \<open>\<open>[...new Set(xs)]\<close>: the distinct elements in order of first occurrence.\<close>

fun dedupe :: "'a list \<Rightarrow> 'a list \<Rightarrow> 'a list" where
  "dedupe seen [] = seen"
| "dedupe seen (x # xs) = (if x \<in> set seen then dedupe seen xs else dedupe (seen @ [x]) xs)"

section \<open>The local calendar\<close>

text \<open>
  \<open>getWeekKey\<close> and the summary text read the local calendar of the process
  (\<open>Date.getFullYear\<close>, \<open>new Date(year, 0, 1)\<close>, \<open>toLocaleDateString\<close>), which depends
  on its time zone and locale. The functions below take it as a parameter.
\<close>

record calendar =
  getFullYear :: "int \<Rightarrow> int"
  yearStart :: "int \<Rightarrow> int"
  toLocaleDateString :: "int \<Rightarrow> string"

section \<open>Compaction (compaction.ts)\<close>

definition maxAge :: int where
  "maxAge = 90 * 24 * 60 * 60 * 1000"

definition maxInteractions :: nat where
  "maxInteractions = 100"

definition summaryThreshold :: int where
  "summaryThreshold = 30 * 24 * 60 * 60 * 1000"

definition getWeekKey :: "calendar \<Rightarrow> int \<Rightarrow> string" where
  "getWeekKey cal ts =
     (let year = getFullYear cal ts;
          week = (ts - yearStart cal year) div (7 * 24 * 60 * 60 * 1000)
      in show_int year @ ''-W'' @ show_int week)"

definition determineOverallSentiment :: "sentiment list \<Rightarrow> sentiment" where
  "determineOverallSentiment sentiments =
     (if length sentiments = 0 then Neutral
      else let positive = length (filter (\<lambda>s. s = Positive) sentiments);
               neutral = length (filter (\<lambda>s. s = Neutral) sentiments);
               negative = length (filter (\<lambda>s. s = Negative) sentiments)
           in if positive > negative then Positive
              else if negative > positive then Negative
              else Neutral)"

text \<open>\<open>xs.map((i) => i.sentiment).filter(Boolean)\<close>: the sentiments that are present.\<close>

fun definedSentiments :: "interaction list \<Rightarrow> sentiment list" where
  "definedSentiments [] = []"
| "definedSentiments (i # is) =
     (case sentiment i of None \<Rightarrow> definedSentiments is | Some s \<Rightarrow> s # definedSentiments is)"

text \<open>
  The \<open>Map\<close> of week groups keeps its keys in insertion order; it is an association
  list. \<open>group_push\<close> is the body of the grouping loop.
\<close>

fun group_push :: "string \<Rightarrow> interaction \<Rightarrow> (string \<times> interaction list) list
    \<Rightarrow> (string \<times> interaction list) list" where
  "group_push k i [] = [(k, [i])]"
| "group_push k i ((k', g) # rest) =
     (if k' = k then (k', g @ [i]) # rest else (k', g) # group_push k i rest)"

definition groupByWeek :: "calendar \<Rightarrow> interaction list \<Rightarrow> (string \<times> interaction list) list" where
  "groupByWeek cal xs = foldl (\<lambda>groups i. group_push (getWeekKey cal (timestamp i)) i groups) [] xs"

fun channel_text :: "channel \<Rightarrow> string" where
  "channel_text Phone = ''phone''"
| "channel_text Sms = ''sms''"
| "channel_text Email = ''email''"
| "channel_text Whatsapp = ''whatsapp''"
| "channel_text Webchat = ''webchat''"
| "channel_text Other = ''other''"

text \<open>
  One iteration of the loop over the groups. A group is never empty
  (lemma \<open>groupByWeek_nonempty\<close>), so \<open>groupInteractions[0]\<close> is \<open>hd g\<close>.
\<close>

definition summarizeGroup :: "calendar \<Rightarrow> string \<times> interaction list \<Rightarrow> interaction" where
  "summarizeGroup cal kg =
     (let weekKey = fst kg; groupInteractions = snd kg in
      if length groupInteractions = 1 then hd groupInteractions
      else
        let channels = dedupe [] (map channel groupInteractions);
            tps = dedupe [] (concat (map topics groupInteractions));
            overallSentiment = determineOverallSentiment (definedSentiments groupInteractions)
        in \<lparr> iid = ''summary_'' @ weekKey,
             timestamp = timestamp (hd groupInteractions),
             channel = Other,
             direction = Inbound,
             summary = ''Week of '' @ toLocaleDateString cal (timestamp (hd groupInteractions))
                 @ '': '' @ show_nat (length groupInteractions) @ '' interactions across ''
                 @ join '', '' (map channel_text channels)
                 @ ''. Topics: '' @ join '', '' (take 3 tps),
             fullContent = None,
             entities = [],
             sentiment = Some overallSentiment,
             topics = tps \<rparr>)"

definition summarizeInteractions :: "calendar \<Rightarrow> interaction list \<Rightarrow> interaction list" where
  "summarizeInteractions cal xs =
     (if length xs = 0 then [] else map (summarizeGroup cal) (groupByWeek cal xs))"

text \<open>
  \<open>interactions.sort((a, b) => b.timestamp - a.timestamp)\<close>: a stable sort, newest
  first, of the caller's array in place.
\<close>

definition sortNewestFirst :: "interaction list \<Rightarrow> interaction list" where
  "sortNewestFirst xs = sort_key (\<lambda>i. - timestamp i) xs"

text \<open>The partition loop of \<open>compact\<close>, with its two arrays as accumulators.\<close>

fun partitionLoop :: "int \<Rightarrow> interaction list \<Rightarrow> interaction list \<Rightarrow> interaction list
    \<Rightarrow> interaction list \<times> interaction list" where
  "partitionLoop now [] recent old = (recent, old)"
| "partitionLoop now (i # is) recent old =
     (let age = now - timestamp i in
      if age < summaryThreshold \<or> length recent < 20
      then partitionLoop now is (recent @ [i]) old
      else partitionLoop now is recent (old @ [i]))"

text \<open>The local variables of \<open>compact\<close>, in the order the body computes them.\<close>

record compact_locals =
  c_sorted :: "interaction list"
  c_recent :: "interaction list"
  c_old :: "interaction list"
  c_toKeep :: "interaction list"
  c_summarized :: "interaction list"
  c_compacted :: "interaction list"
  c_final :: "interaction list"

definition compactLocals :: "calendar \<Rightarrow> int \<Rightarrow> interaction list \<Rightarrow> compact_locals" where
  "compactLocals cal now xs =
     (let srt = sortNewestFirst xs;
          parts = partitionLoop now srt [] [];
          toKeep = filter (\<lambda>i. now - timestamp i < maxAge) (snd parts);
          summ = summarizeInteractions cal toKeep;
          compacted = fst parts @ summ
      in \<lparr> c_sorted = srt, c_recent = fst parts, c_old = snd parts, c_toKeep = toKeep,
           c_summarized = summ, c_compacted = compacted,
           c_final = take maxInteractions compacted \<rparr>)"

text \<open>
  \<open>compact\<close> returns the four counts only. The second component is the caller's
  array after the call: the sort has reordered it.
\<close>

definition compactRun :: "calendar \<Rightarrow> int \<Rightarrow> interaction list \<Rightarrow> compaction_result \<times> interaction list" where
  "compactRun cal now xs =
     (let L = compactLocals cal now xs in
      (\<lparr> originalCount = length xs,
         compactedCount = length (c_final L),
         summarized = length (c_summarized L),
         removed = (length (c_old L) - length (c_toKeep L))
                   + (length (c_compacted L) - length (c_final L)) \<rparr>,
       c_sorted L))"

text \<open>The \<open>groups\<close> map of \<open>summarizeInteractions\<close> when \<open>compact\<close> calls it.\<close>

definition weekGroups :: "calendar \<Rightarrow> int \<Rightarrow> interaction list \<Rightarrow> (string \<times> interaction list) list" where
  "weekGroups cal now xs = groupByWeek cal (c_toKeep (compactLocals cal now xs))"

definition shouldCompact :: "int \<Rightarrow> interaction list \<Rightarrow> bool" where
  "shouldCompact now xs =
     (if length xs < maxInteractions then False
      else let old = filter (\<lambda>i. now - timestamp i > summaryThreshold) xs
           in length old > 20)"

section \<open>Overall sentiment of a sync (index.ts)\<close>

definition calculateOverallSentiment :: "interaction list \<Rightarrow> sentiment" where
  "calculateOverallSentiment interactions =
     (let recent = take 10 interactions;
          sentiments = definedSentiments recent
      in if length sentiments = 0 then Neutral
         else let positive = length (filter (\<lambda>s. s = Positive) sentiments);
                  neutral = length (filter (\<lambda>s. s = Neutral) sentiments);
                  negative = length (filter (\<lambda>s. s = Negative) sentiments)
              in if positive > negative then Positive
                 else if negative > positive then Negative
                 else Neutral)"

text \<open>
  The aggregate as the specification words it, for comparison with the code: a
  majority vote among the three sentiments, where the sentiment with strictly more votes
  than each of the other two wins and every other outcome is neutral.
\<close>

definition majorityVote :: "sentiment list \<Rightarrow> sentiment" where
  "majorityVote ss =
     (let p = count_list ss Positive; n = count_list ss Negative; u = count_list ss Neutral
      in if p > n \<and> p > u then Positive
         else if n > p \<and> n > u then Negative
         else Neutral)"

section \<open>Indexer (indexer.ts)\<close>

text \<open>
  The channel labels of a message, as \<open>GHLMessage.type\<close> declares them:
  \<open>'SMS' | 'Email' | 'WhatsApp' | 'GMB' | 'FB' | 'Instagram' | 'Live_Chat' | 'Custom'\<close>.
\<close>

datatype ghl_message_type =
  T_SMS | T_Email | T_WhatsApp | T_GMB | T_FB | T_Instagram | T_Live_Chat | T_Custom

text \<open>
  A message of the source. \<open>dateAdded\<close> is the message's date already parsed to
  milliseconds (the code applies \<open>new Date(...).getTime()\<close> to the ISO string); \<open>msg_type\<close>
  is the field \<open>type\<close>.
\<close>

record ghl_message =
  msg_id :: string
  conversationId :: string
  msg_type :: ghl_message_type
  body :: string
  msg_direction :: direction
  status :: string
  dateAdded :: int

subsection \<open>Characters and substrings\<close>

definition isDigit :: "char \<Rightarrow> bool" where
  "isDigit c = (c \<in> set ''0123456789'')"

definition isWordChar :: "char \<Rightarrow> bool" where
  "isWordChar c =
     (c \<in> set ''abcdefghijklmnopqrstuvwxyzABCDEFGHIJKLMNOPQRSTUVWXYZ0123456789_'')"

text \<open>The white space of \<open>\s\<close> and of \<open>trim\<close> among the 8-bit characters.\<close>

definition isSpace :: "char \<Rightarrow> bool" where
  "isSpace c = (c \<in> set [CHR 0x09, CHR 0x0A, CHR 0x0B, CHR 0x0C, CHR 0x0D, CHR 0x20, CHR 0xA0])"

definition isLineTerminator :: "char \<Rightarrow> bool" where
  "isLineTerminator c = (c \<in> set [CHR 0x0A, CHR 0x0D])"

text \<open>
  Case folding of the \<open>i\<close> flag: only the ASCII letters fold (a character beyond ASCII
  never matches an ASCII letter of a pattern).
\<close>

definition asciiLower :: "char \<Rightarrow> char" where
  "asciiLower c =
     (case map_of (zip ''ABCDEFGHIJKLMNOPQRSTUVWXYZ'' ''abcdefghijklmnopqrstuvwxyz'') c of
        None \<Rightarrow> c | Some l \<Rightarrow> l)"

text \<open>\<open>String.prototype.toLowerCase\<close> on 8-bit characters: ASCII and the Latin-1 capitals.\<close>

definition toLowerChar :: "char \<Rightarrow> char" where
  "toLowerChar c =
     (let n = (of_char c :: nat) in
      if (65 \<le> n \<and> n \<le> 90) \<or> (192 \<le> n \<and> n \<le> 222 \<and> n \<noteq> 215) then char_of (n + 32) else c)"

definition toLowerCase :: "string \<Rightarrow> string" where
  "toLowerCase s = map toLowerChar s"

fun startsWith :: "string \<Rightarrow> string \<Rightarrow> bool" where
  "startsWith s [] = True"
| "startsWith [] (w # ws) = False"
| "startsWith (c # cs) (w # ws) = (c = w \<and> startsWith cs ws)"

fun startsWithCI :: "string \<Rightarrow> string \<Rightarrow> bool" where
  "startsWithCI s [] = True"
| "startsWithCI [] (w # ws) = False"
| "startsWithCI (c # cs) (w # ws) = (asciiLower c = asciiLower w \<and> startsWithCI cs ws)"

fun includesStr :: "string \<Rightarrow> string \<Rightarrow> bool" where
  "includesStr [] w = (w = [])"
| "includesStr (c # cs) w = (startsWith (c # cs) w \<or> includesStr cs w)"

definition trim :: "string \<Rightarrow> string" where
  "trim s = rev (dropWhile isSpace (rev (dropWhile isSpace s)))"

subsection \<open>Matching the patterns\<close>

text \<open>
  \<open>text.matchAll(pattern)\<close> for a global pattern: the text is scanned from the left;
  at each position the matcher \<open>m\<close> either fails or gives the length of the match (at
  least 1 for all patterns here) and a result, and the scan resumes behind the match.
  \<open>prevWord\<close> tells whether the character before the position is a word character
  (for \<open>\b\<close>); \<open>skip\<close> counts the characters still covered by the last match.
\<close>

fun scanMatches :: "(bool \<Rightarrow> string \<Rightarrow> (nat \<times> 'a) option) \<Rightarrow> bool \<Rightarrow> nat \<Rightarrow> string \<Rightarrow> 'a list" where
  "scanMatches m prevWord skip [] = []"
| "scanMatches m prevWord skip (c # cs) =
     (if skip > 0 then scanMatches m (isWordChar c) (skip - 1) cs
      else case m prevWord (c # cs) of
             None \<Rightarrow> scanMatches m (isWordChar c) 0 cs
           | Some (n, r) \<Rightarrow> r # scanMatches m (isWordChar c) (n - 1) cs)"

definition matchAll :: "(bool \<Rightarrow> string \<Rightarrow> (nat \<times> 'a) option) \<Rightarrow> string \<Rightarrow> 'a list" where
  "matchAll m text = scanMatches m False 0 text"

definition nextIsWord :: "string \<Rightarrow> bool" where
  "nextIsWord s = (case s of [] \<Rightarrow> False | c # _ \<Rightarrow> isWordChar c)"

definition digitRun :: "string \<Rightarrow> nat" where
  "digitRun s = length (takeWhile isDigit s)"

text \<open>\<open>/\b(?:w1|w2|...)\b/gi\<close>: every word starts and ends with a letter.\<close>

definition wordListMatch :: "string list \<Rightarrow> bool \<Rightarrow> string \<Rightarrow> (nat \<times> string) option" where
  "wordListMatch alts prevWord s =
     (if prevWord then None
      else case List.find (\<lambda>a. startsWithCI s a \<and> \<not> nextIsWord (drop (length a) s)) alts of
             None \<Rightarrow> None
           | Some a \<Rightarrow> Some (length a, take (length a) s))"

text \<open>
  \<open>/\b\d{1,2}\/\d{1,2}(?:\/\d{2,4})?\b/g\<close>. A group of digits can only match a whole
  run of digits: behind a shorter one comes a digit, where neither \<open>/\<close> nor \<open>\b\<close>
  matches.
\<close>

definition dateNumberMatch :: "bool \<Rightarrow> string \<Rightarrow> (nat \<times> string) option" where
  "dateNumberMatch prevWord s =
     (let r1 = digitRun s; s1 = drop r1 s in
      if prevWord \<or> \<not> (1 \<le> r1 \<and> r1 \<le> 2) \<or> \<not> startsWith s1 ''/'' then None
      else
        let s2 = drop 1 s1; r2 = digitRun s2; s3 = drop r2 s2 in
        if \<not> (1 \<le> r2 \<and> r2 \<le> 2) then None
        else
          let r3 = digitRun (drop 1 s3) in
          if startsWith s3 ''/'' \<and> 2 \<le> r3 \<and> r3 \<le> 4 \<and> \<not> nextIsWord (drop (1 + r3) s3)
          then Some (r1 + 1 + r2 + 1 + r3, take (r1 + 1 + r2 + 1 + r3) s)
          else if \<not> nextIsWord s3 then Some (r1 + 1 + r2, take (r1 + 1 + r2) s)
          else None)"

text \<open>
  \<open>/\b\d{1,2}:\d{2}\s*(?:am|pm)?\b/gi\<close>. Behind the two digits of the minutes the
  pattern backtracks: \<open>\s*\<close> tries the longest run of white space first, and for each
  length first with \<open>am\<close> or \<open>pm\<close> and then without.
\<close>

definition timeTailOk :: "string \<Rightarrow> nat \<times> bool \<Rightarrow> bool" where
  "timeTailOk t kb =
     (let u = drop (fst kb) t in
      if snd kb
      then (startsWithCI u ''am'' \<or> startsWithCI u ''pm'') \<and> \<not> nextIsWord (drop 2 u)
      else if fst kb = 0 then \<not> nextIsWord u else nextIsWord u)"

definition timeMatch :: "bool \<Rightarrow> string \<Rightarrow> (nat \<times> string) option" where
  "timeMatch prevWord s =
     (let r1 = digitRun s; s1 = drop r1 s; s2 = drop 1 s1; t = drop 2 s2 in
      if prevWord \<or> \<not> (1 \<le> r1 \<and> r1 \<le> 2) \<or> \<not> startsWith s1 '':''
         \<or> length (take 2 s2) < 2 \<or> \<not> list_all isDigit (take 2 s2) then None
      else
        let w = length (takeWhile isSpace t);
            candidates = concat (map (\<lambda>k. [(k, True), (k, False)]) (rev [0..<Suc w]))
        in case List.find (timeTailOk t) candidates of
             None \<Rightarrow> None
           | Some kb \<Rightarrow>
               (let n = r1 + 1 + 2 + fst kb + (if snd kb then 2 else 0) in Some (n, take n s)))"

text \<open>\<open>/\$\d+(?:,\d{3})*(?:\.\d{2})?/g\<close>: every part takes what it can, nothing backtracks.\<close>

fun commaGroups :: "string \<Rightarrow> nat" where
  "commaGroups (x # a # b # c # rest) =
     (if x = CHR '','' \<and> isDigit a \<and> isDigit b \<and> isDigit c then 4 + commaGroups rest else 0)"
| "commaGroups s = 0"

definition priceMatch :: "bool \<Rightarrow> string \<Rightarrow> (nat \<times> string) option" where
  "priceMatch prevWord s =
     (let r = digitRun (drop 1 s) in
      if \<not> startsWith s ''$'' \<or> r = 0 then None
      else
        let g = commaGroups (drop (1 + r) s);
            t = drop (1 + r + g) s;
            cents = (if startsWith t ''.'' \<and> length (take 2 (drop 1 t)) = 2
                        \<and> list_all isDigit (take 2 (drop 1 t)) then 3 else 0);
            n = 1 + r + g + cents
        in Some (n, take n s))"

definition extractEntities :: "string \<Rightarrow> extracted_entity list" where
  "extractEntities text =
     map (\<lambda>v. \<lparr> etype = EDate, evalue = v, econfidence = 8 / 10 \<rparr>)
         (matchAll (wordListMatch [''monday'', ''tuesday'', ''wednesday'', ''thursday'', ''friday'',
                                   ''saturday'', ''sunday'']) text
          @ matchAll (wordListMatch [''tomorrow'', ''today'', ''next week'', ''next month'']) text
          @ matchAll dateNumberMatch text)
     @ map (\<lambda>v. \<lparr> etype = ETime, evalue = v, econfidence = 8 / 10 \<rparr>) (matchAll timeMatch text)
     @ map (\<lambda>v. \<lparr> etype = EPrice, evalue = v, econfidence = 9 / 10 \<rparr>) (matchAll priceMatch text)"

subsection \<open>Topics, sentiment, summary, channel\<close>

definition topicKeywords :: "(string \<times> string list) list" where
  "topicKeywords =
     [(''pricing'', [''price'', ''cost'', ''pricing'', ''quote'', ''estimate'', ''budget'', ''expensive'', ''cheap'']),
      (''scheduling'', [''appointment'', ''schedule'', ''meeting'', ''book'', ''calendar'', ''available'']),
      (''support'', [''help'', ''issue'', ''problem'', ''question'', ''support'', ''assist'']),
      (''product'', [''product'', ''service'', ''feature'', ''plan'', ''package'']),
      (''billing'', [''bill'', ''invoice'', ''payment'', ''charge'', ''subscription''])]"

definition extractTopics :: "string \<Rightarrow> string list" where
  "extractTopics text =
     (let lowerText = toLowerCase text in
      dedupe [] (map fst (filter (\<lambda>tk. list_ex (\<lambda>keyword. includesStr lowerText keyword) (snd tk))
                                 topicKeywords)))"

definition analyzeSentiment :: "string \<Rightarrow> sentiment" where
  "analyzeSentiment text =
     (let lowerText = toLowerCase text;
          positiveWords = [''thank'', ''great'', ''excellent'', ''perfect'', ''happy'', ''love'', ''amazing''];
          negativeWords = [''bad'', ''terrible'', ''awful'', ''hate'', ''frustrated'', ''angry'', ''disappointed''];
          score = int (length (filter (includesStr lowerText) positiveWords))
                  - int (length (filter (includesStr lowerText) negativeWords))
      in if score > 0 then Positive else if score < 0 then Negative else Neutral)"

definition summarizeMessage :: "string \<Rightarrow> string" where
  "summarizeMessage text = (if length text \<le> 100 then text else take 97 text @ ''...'')"

text \<open>
  \<open>typeMap[ghlType] || 'other'\<close>: the lookup in the table, with \<open>other\<close> for a
  label that the table does not hold. The table holds every label of the declared type.
\<close>

definition mapChannelType :: "ghl_message_type \<Rightarrow> channel" where
  "mapChannelType ghlType =
     (case map_of [(T_SMS, Sms), (T_Email, Email), (T_WhatsApp, Whatsapp),
                   (T_Live_Chat, Webchat), (T_Custom, Other), (T_GMB, Other),
                   (T_FB, Other), (T_Instagram, Other)] ghlType of
        None \<Rightarrow> Other | Some c \<Rightarrow> c)"

definition indexMessage :: "ghl_message \<Rightarrow> interaction" where
  "indexMessage message =
     \<lparr> iid = msg_id message,
       timestamp = dateAdded message,
       channel = mapChannelType (msg_type message),
       direction = msg_direction message,
       summary = summarizeMessage (body message),
       fullContent = Some (body message),
       entities = extractEntities (body message),
       sentiment = Some (analyzeSentiment (body message)),
       topics = extractTopics (body message) \<rparr>"

definition indexMessages :: "ghl_message list \<Rightarrow> interaction list" where
  "indexMessages messages = map indexMessage messages"

subsection \<open>Key facts\<close>

text \<open>
  The commitment and preference patterns have the shape
  \<open>/(?:a1|a2|...)\s+(.+?)(?:\.|$)/gi\<close>. Behind one of the phrases the clause is matched
  lazily: it has at least one character, none of them a line terminator, and ends before
  the first full stop behind its first character, or at the end of the text. The result
  is the captured clause together with the number of characters it and the full stop
  take.
\<close>

fun lazyClause :: "string \<Rightarrow> string \<Rightarrow> (nat \<times> string) option" where
  "lazyClause acc [] = Some (length acc, acc)"
| "lazyClause acc (d # ds) =
     (if d = CHR ''.'' then Some (length acc + 1, acc)
      else if isLineTerminator d then None
      else lazyClause (acc @ [d]) ds)"

definition clauseAt :: "string \<Rightarrow> (nat \<times> string) option" where
  "clauseAt s =
     (case s of [] \<Rightarrow> None
      | c # cs \<Rightarrow> if isLineTerminator c then None else lazyClause [c] cs)"

text \<open>
  \<open>\s+\<close> takes the longest run of white space first and gives characters back one
  by one, down to a single one, until a clause follows.
\<close>

definition spacedClause :: "string \<Rightarrow> (nat \<times> string) option" where
  "spacedClause s =
     (let w = length (takeWhile isSpace s) in
      case List.find (\<lambda>k. clauseAt (drop k s) \<noteq> None) (rev [1..<Suc w]) of
        None \<Rightarrow> None
      | Some k \<Rightarrow> (case clauseAt (drop k s) of
                     None \<Rightarrow> None
                   | Some (n, clause) \<Rightarrow> Some (k + n, clause)))"

definition phraseMatch :: "string list \<Rightarrow> bool \<Rightarrow> string \<Rightarrow> (nat \<times> string) option" where
  "phraseMatch alts prevWord s =
     (case List.find (\<lambda>a. startsWithCI s a \<and> spacedClause (drop (length a) s) \<noteq> None) alts of
        None \<Rightarrow> None
      | Some a \<Rightarrow> (case spacedClause (drop (length a) s) of
                     None \<Rightarrow> None
                   | Some (n, clause) \<Rightarrow> Some (length a + n, clause)))"

definition commitmentPatterns :: "string list list" where
  "commitmentPatterns = [[''I'll'', ''I will'', ''let me'', ''I can''], [''we'll'', ''we will'']]"

definition preferencePatterns :: "string list list" where
  "preferencePatterns =
     [[''I prefer'', ''I like'', ''I want'', ''I need''], [''prefer'', ''like'', ''want'', ''need'']]"

definition objectionWords :: "string list" where
  "objectionWords = [''but'', ''however'', ''concern'', ''worried'', ''expensive'', ''too much'']"

text \<open>
  \<open>match[1]?.trim()\<close> for all matches of the patterns of one family, in the order of the
  two loops. An interaction without \<open>fullContent\<close> has no match.
\<close>

definition clauses :: "string list list \<Rightarrow> interaction \<Rightarrow> string list" where
  "clauses patterns i =
     (case fullContent i of
        None \<Rightarrow> []
      | Some content \<Rightarrow> map trim (concat (map (\<lambda>alts. matchAll (phraseMatch alts) content) patterns)))"

definition clauseAccepted :: "string \<Rightarrow> bool" where
  "clauseAccepted c = (c \<noteq> [] \<and> length c > 5 \<and> length c < 200)"

text \<open>
  \<open>nanoid()\<close> is a supply of identifiers: \<open>ids n\<close> is the identifier of the fact
  pushed when the array holds \<open>n\<close> facts.
\<close>

definition pushFact :: "(nat \<Rightarrow> string) \<Rightarrow> interaction \<Rightarrow> string \<Rightarrow> real \<Rightarrow> category
    \<Rightarrow> key_fact list \<Rightarrow> key_fact list" where
  "pushFact ids i txt conf cat facts =
     facts @ [\<lparr> fact_id = ids (length facts), fact_text = txt, fact_source = iid i,
               confidence = conf, fact_timestamp = timestamp i, category = cat \<rparr>]"

definition pushClauses :: "(nat \<Rightarrow> string) \<Rightarrow> interaction \<Rightarrow> string \<Rightarrow> real \<Rightarrow> category
    \<Rightarrow> string list \<Rightarrow> key_fact list \<Rightarrow> key_fact list" where
  "pushClauses ids i label conf cat cs facts =
     foldl (\<lambda>fs c. if clauseAccepted c then pushFact ids i (label @ c) conf cat fs else fs) facts cs"

definition pushObjection :: "(nat \<Rightarrow> string) \<Rightarrow> interaction \<Rightarrow> key_fact list \<Rightarrow> key_fact list" where
  "pushObjection ids i facts =
     (let txt = (case fullContent i of None \<Rightarrow> [] | Some content \<Rightarrow> toLowerCase content) in
      case List.find (\<lambda>word. includesStr txt word) objectionWords of
        None \<Rightarrow> facts
      | Some word \<Rightarrow> pushFact ids i (''Potential objection mentioned: '' @ word) (5 / 10) Objection facts)"

text \<open>The body of the loop over the interactions.\<close>

definition interactionFacts :: "(nat \<Rightarrow> string) \<Rightarrow> key_fact list \<Rightarrow> interaction \<Rightarrow> key_fact list" where
  "interactionFacts ids facts i =
     pushObjection ids i
       (pushClauses ids i ''Preference: '' (6 / 10) Preference (clauses preferencePatterns i)
         (pushClauses ids i ''Commitment: '' (7 / 10) Commitment (clauses commitmentPatterns i) facts))"

definition extractKeyFacts :: "(nat \<Rightarrow> string) \<Rightarrow> interaction list \<Rightarrow> string \<Rightarrow> key_fact list" where
  "extractKeyFacts ids interactions contactId = foldl (interactionFacts ids) [] interactions"

text \<open>
  The facts that one iteration of the loop pushes, and the lower-case text that the
  objection words are looked up in.
\<close>

definition newFacts :: "(nat \<Rightarrow> string) \<Rightarrow> key_fact list \<Rightarrow> interaction \<Rightarrow> key_fact list" where
  "newFacts ids facts i = drop (length facts) (interactionFacts ids facts i)"

definition objectionText :: "interaction \<Rightarrow> string" where
  "objectionText i = (case fullContent i of None \<Rightarrow> [] | Some content \<Rightarrow> toLowerCase content)"

text \<open>What every extracted fact looks like, by pattern family.\<close>

definition factPolicy :: "key_fact \<Rightarrow> bool" where
  "factPolicy f =
     ((category f = Commitment \<and> confidence f = 7 / 10
         \<and> (\<exists>c. fact_text f = ''Commitment: '' @ c \<and> 6 \<le> length c \<and> length c < 200))
      \<or> (category f = Preference \<and> confidence f = 6 / 10
         \<and> (\<exists>c. fact_text f = ''Preference: '' @ c \<and> 6 \<le> length c \<and> length c < 200))
      \<or> (category f = Objection \<and> confidence f = 5 / 10
         \<and> (\<exists>w \<in> set objectionWords. fact_text f = ''Potential objection mentioned: '' @ w)))"

section \<open>Store (schema of the three tables, index.ts)\<close>

record contact_metadata =
  name :: string
  email :: "string option"
  phone :: "string option"
  tags :: "string list"
  source :: string
  firstSeen :: int
  lastSeen :: int

record sentiment_history_entry =
  h_timestamp :: int
  h_sentiment :: sentiment
  h_score :: int

record sentiment_analysis =
  overall :: sentiment
  history :: "sentiment_history_entry list"

type_synonym preferences = "(string \<times> string) list"

record contact_memory_entry =
  contactId :: string
  locationId :: string
  lastUpdated :: int
  metadata :: contact_metadata
  interactions :: "interaction list"
  keyFacts :: "key_fact list"
  preferences :: preferences
  entry_sentiment :: sentiment_analysis

text \<open>
  The rows of the tables \<open>contact_memory\<close>, \<open>interactions\<close> and \<open>key_facts\<close>. A
  column that holds JSON text or the text of an enumeration is modelled by the value
  itself, since \<open>JSON.parse\<close> undoes \<open>JSON.stringify\<close> on this data; a nullable column
  is an \<open>option\<close>.
\<close>

record contact_memory_row =
  contact_id :: string
  location_id :: string
  last_updated :: int
  metadata_col :: contact_metadata
  preferences_col :: preferences
  sentiment_col :: sentiment_analysis
  created_at :: int

record interaction_row =
  ir_id :: string
  ir_contact_id :: string
  ir_timestamp :: int
  ir_channel :: channel
  ir_direction :: direction
  ir_summary :: string
  ir_full_content :: "string option"
  ir_entities :: "extracted_entity list"
  ir_sentiment :: "sentiment option"
  ir_topics :: "string list"

record key_fact_row =
  kr_id :: string
  kr_contact_id :: string
  kr_fact :: string
  kr_source :: string
  kr_confidence :: real
  kr_timestamp :: int
  kr_category :: category

text \<open>
  The database: each table is the list of its rows in insertion order.
  \<open>foreign_keys\<close> tells whether the engine enforces the \<open>FOREIGN KEY\<close> clauses of the
  schema; that is a setting of the connection, which the code leaves at the default of its
  SQLite binding.
\<close>

record database =
  contact_memory :: "contact_memory_row list"
  interactions_tbl :: "interaction_row list"
  key_facts_tbl :: "key_fact_row list"
  foreign_keys :: bool

text \<open>
  The manager's \<open>db\<close> field is \<open>null\<close> (\<open>None\<close>) until it is initialized. An
  operation that writes either returns (\<open>Inr\<close>) with the database it leaves behind, or
  throws (\<open>Inl\<close>): a failure is the error together with the database the call leaves
  behind. Nothing runs in a transaction, so what was written before the failing statement
  stays written; the failing statement itself changes nothing.
\<close>

datatype store_error = DatabaseNotInitialized | UniqueConstraintFailed | ForeignKeyConstraintFailed

type_synonym failure = "store_error \<times> database option"

text \<open>\<open>x || null\<close> on an optional string: the empty string is falsy.\<close>

definition orNull :: "string option \<Rightarrow> string option" where
  "orNull s = (case s of None \<Rightarrow> None | Some t \<Rightarrow> if t = [] then None else Some t)"

definition interactionRow :: "string \<Rightarrow> interaction \<Rightarrow> interaction_row" where
  "interactionRow cid i =
     \<lparr> ir_id = iid i, ir_contact_id = cid, ir_timestamp = timestamp i, ir_channel = channel i,
       ir_direction = direction i, ir_summary = summary i, ir_full_content = orNull (fullContent i),
       ir_entities = entities i, ir_sentiment = sentiment i, ir_topics = topics i \<rparr>"

definition keyFactRow :: "string \<Rightarrow> key_fact \<Rightarrow> key_fact_row" where
  "keyFactRow cid f =
     \<lparr> kr_id = fact_id f, kr_contact_id = cid, kr_fact = fact_text f, kr_source = fact_source f,
       kr_confidence = confidence f, kr_timestamp = fact_timestamp f, kr_category = category f \<rparr>"

text \<open>
  \<open>INSERT INTO interactions\<close>: the id is the primary key of the table, and the contact
  must have its \<open>contact_memory\<close> row when foreign keys are enforced.
\<close>

definition insertInteraction :: "database \<Rightarrow> string \<Rightarrow> interaction \<Rightarrow> failure + database" where
  "insertInteraction d cid i =
     (if iid i \<in> set (map ir_id (interactions_tbl d)) then Inl (UniqueConstraintFailed, Some d)
      else if foreign_keys d \<and> cid \<notin> set (map contact_id (contact_memory d))
      then Inl (ForeignKeyConstraintFailed, Some d)
      else Inr (d \<lparr> interactions_tbl := interactions_tbl d @ [interactionRow cid i] \<rparr>))"

definition insertKeyFact :: "database \<Rightarrow> string \<Rightarrow> key_fact \<Rightarrow> failure + database" where
  "insertKeyFact d cid f =
     (if fact_id f \<in> set (map kr_id (key_facts_tbl d)) then Inl (UniqueConstraintFailed, Some d)
      else if foreign_keys d \<and> cid \<notin> set (map contact_id (contact_memory d))
      then Inl (ForeignKeyConstraintFailed, Some d)
      else Inr (d \<lparr> key_facts_tbl := key_facts_tbl d @ [keyFactRow cid f] \<rparr>))"

text \<open>
  The two insertion loops of \<open>storeContactMemory\<close>: the first failing insert throws,
  and the rows inserted before it stay.
\<close>

fun insertInteractions :: "database \<Rightarrow> string \<Rightarrow> interaction list \<Rightarrow> failure + database" where
  "insertInteractions d cid [] = Inr d"
| "insertInteractions d cid (i # is) =
     (case insertInteraction d cid i of
        Inl e \<Rightarrow> Inl e
      | Inr d' \<Rightarrow> insertInteractions d' cid is)"

fun insertKeyFacts :: "database \<Rightarrow> string \<Rightarrow> key_fact list \<Rightarrow> failure + database" where
  "insertKeyFacts d cid [] = Inr d"
| "insertKeyFacts d cid (f # fs) =
     (case insertKeyFact d cid f of
        Inl e \<Rightarrow> Inl e
      | Inr d' \<Rightarrow> insertKeyFacts d' cid fs)"

text \<open>
  \<open>INSERT OR REPLACE INTO contact_memory\<close>: a row with the same primary key is
  replaced; then both \<open>DELETE\<close> statements.
\<close>

definition upsertContact :: "database \<Rightarrow> contact_memory_entry \<Rightarrow> database" where
  "upsertContact d memory =
     d \<lparr> contact_memory :=
           filter (\<lambda>r. contact_id r \<noteq> contactId memory) (contact_memory d)
           @ [\<lparr> contact_id = contactId memory, location_id = locationId memory,
                last_updated = lastUpdated memory, metadata_col = metadata memory,
                preferences_col = preferences memory, sentiment_col = entry_sentiment memory,
                created_at = firstSeen (metadata memory) \<rparr>] \<rparr>"

definition deleteChildren :: "database \<Rightarrow> string \<Rightarrow> database" where
  "deleteChildren d cid =
     d \<lparr> interactions_tbl := filter (\<lambda>r. ir_contact_id r \<noteq> cid) (interactions_tbl d),
         key_facts_tbl := filter (\<lambda>r. kr_contact_id r \<noteq> cid) (key_facts_tbl d) \<rparr>"

definition storeContactMemory :: "database option \<Rightarrow> contact_memory_entry \<Rightarrow> failure + database" where
  "storeContactMemory db memory =
     (case db of
        None \<Rightarrow> Inl (DatabaseNotInitialized, None)
      | Some d \<Rightarrow>
          (case insertInteractions (deleteChildren (upsertContact d memory) (contactId memory))
                  (contactId memory) (interactions memory) of
             Inl e \<Rightarrow> Inl e
           | Inr d' \<Rightarrow> insertKeyFacts d' (contactId memory) (keyFacts memory)))"

definition rowInteraction :: "interaction_row \<Rightarrow> interaction" where
  "rowInteraction r =
     \<lparr> iid = ir_id r, timestamp = ir_timestamp r, channel = ir_channel r,
       direction = ir_direction r, summary = ir_summary r,
       fullContent = orNull (ir_full_content r), entities = ir_entities r,
       sentiment = ir_sentiment r, topics = ir_topics r \<rparr>"

definition rowKeyFact :: "key_fact_row \<Rightarrow> key_fact" where
  "rowKeyFact r =
     \<lparr> fact_id = kr_id r, fact_text = kr_fact r, fact_source = kr_source r,
       confidence = kr_confidence r, fact_timestamp = kr_timestamp r, category = kr_category r \<rparr>"

text \<open>
  \<open>getContactMemory\<close>: \<open>Inr None\<close> is the \<open>null\<close> it returns for a contact without a
  \<open>contact_memory\<close> row. The two \<open>ORDER BY ... DESC\<close> are stable sorts of the table
  order.
\<close>

definition getContactMemory :: "database option \<Rightarrow> string \<Rightarrow> store_error + contact_memory_entry option" where
  "getContactMemory db cid =
     (case db of
        None \<Rightarrow> Inl DatabaseNotInitialized
      | Some d \<Rightarrow>
          (case List.find (\<lambda>r. contact_id r = cid) (contact_memory d) of
             None \<Rightarrow> Inr None
           | Some row \<Rightarrow>
               Inr (Some
                 \<lparr> contactId = contact_id row, locationId = location_id row,
                   lastUpdated = last_updated row, metadata = metadata_col row,
                   interactions =
                     map rowInteraction
                       (sort_key (\<lambda>r. - ir_timestamp r)
                          (filter (\<lambda>r. ir_contact_id r = cid) (interactions_tbl d))),
                   keyFacts =
                     map rowKeyFact
                       (sort_key (\<lambda>r. - kr_confidence r)
                          (filter (\<lambda>r. kr_contact_id r = cid) (key_facts_tbl d))),
                   preferences = preferences_col row,
                   entry_sentiment = sentiment_col row \<rparr>)))"

text \<open>\<open>addInteraction\<close>: one insert, then the \<open>UPDATE\<close> of \<open>last_updated\<close>.\<close>

definition addInteraction :: "database option \<Rightarrow> string \<Rightarrow> interaction \<Rightarrow> int \<Rightarrow> failure + database" where
  "addInteraction db cid i now =
     (case db of
        None \<Rightarrow> Inl (DatabaseNotInitialized, None)
      | Some d \<Rightarrow>
          (case insertInteraction d cid i of
             Inl e \<Rightarrow> Inl e
           | Inr d' \<Rightarrow>
               Inr (d' \<lparr> contact_memory :=
                          map (\<lambda>r. if contact_id r = cid then r \<lparr> last_updated := now \<rparr> else r)
                              (contact_memory d') \<rparr>)))"

text \<open>The tables a successful write leaves behind.\<close>

definition writtenDatabase :: "database \<Rightarrow> contact_memory_entry \<Rightarrow> database" where
  "writtenDatabase d memory =
     (let d0 = deleteChildren (upsertContact d memory) (contactId memory) in
      d0 \<lparr> interactions_tbl :=
             interactions_tbl d0 @ map (interactionRow (contactId memory)) (interactions memory),
           key_facts_tbl :=
             key_facts_tbl d0 @ map (keyFactRow (contactId memory)) (keyFacts memory) \<rparr>)"

text \<open>
  What \<open>getContactMemory\<close> returns as the contact's interactions after an operation
  that may have failed; \<open>None\<close> when it failed or the contact has no entry.
\<close>

definition storedInteractions :: "failure + database \<Rightarrow> string \<Rightarrow> interaction list option" where
  "storedInteractions r cid =
     (case r of
        Inl e \<Rightarrow> None
      | Inr d \<Rightarrow> (case getContactMemory (Some d) cid of
                   Inr (Some entry) \<Rightarrow> Some (interactions entry)
                 | _ \<Rightarrow> None))"

text \<open>
  The manager's database after a write, whether it returned or threw, and the numbers of
  interactions and key facts that a read of a contact returns.
\<close>

definition databaseAfter :: "failure + database \<Rightarrow> database option" where
  "databaseAfter r = (case r of Inl (e, db) \<Rightarrow> db | Inr d \<Rightarrow> Some d)"

definition readCounts :: "database option \<Rightarrow> string \<Rightarrow> (nat \<times> nat) option" where
  "readCounts db cid =
     (case getContactMemory db cid of
        Inr (Some entry) \<Rightarrow> Some (length (interactions entry), length (keyFacts entry))
      | _ \<Rightarrow> None)"

section \<open>Sync (index.ts)\<close>

text \<open>What \<open>syncContactFromGHL\<close> uses of the context the CRM plugin builds.\<close>

record ghl_context =
  contactName :: string
  ctx_preferences :: preferences

definition sentimentHistory :: "interaction list \<Rightarrow> sentiment_history_entry list" where
  "sentimentHistory xs =
     take 20 (concat (map (\<lambda>i. case sentiment i of
                               None \<Rightarrow> []
                             | Some s \<Rightarrow> [\<lparr> h_timestamp = timestamp i, h_sentiment = s,
                                           h_score = (if s = Positive then 1
                                                      else if s = Negative then - 1 else 0) \<rparr>])
                          xs))"

text \<open>
  The interactions that are written: when \<open>shouldCompact\<close> holds, the first
  \<open>compactedCount\<close> elements of the array that \<open>compact\<close> has sorted in place.
  \<open>clock n\<close> is the \<open>n\<close>-th reading of \<open>Date.now()\<close> during the call, counted
  from 0: \<open>shouldCompact\<close> takes reading 0 when it reads the clock at all, and
  \<open>compact\<close>, which runs only after \<open>shouldCompact\<close> has read the clock and
  returned true, takes reading 1.
\<close>

definition finalInteractions :: "calendar \<Rightarrow> (nat \<Rightarrow> int) \<Rightarrow> interaction list \<Rightarrow> interaction list" where
  "finalInteractions cal clock xs =
     (if shouldCompact (clock 0) xs
      then let r = compactRun cal (clock 1) xs in take (compactedCount (fst r)) (snd r)
      else xs)"

text \<open>
  The readings of the clock before the entry is built: \<open>shouldCompact\<close> reads it
  unless it returns early on fewer than 100 interactions, and \<open>compact\<close> reads it
  when it is called.
\<close>

definition clockReadsBeforeEntry :: "(nat \<Rightarrow> int) \<Rightarrow> interaction list \<Rightarrow> nat" where
  "clockReadsBeforeEntry clock xs =
     (if length xs < maxInteractions then 0 else 1) + (if shouldCompact (clock 0) xs then 1 else 0)"

text \<open>
  The entry that \<open>syncContactFromGHL\<close> hands to \<open>storeContactMemory\<close>; its three
  dates are the next three readings of the clock.
\<close>

definition syncEntry :: "calendar \<Rightarrow> (nat \<Rightarrow> int) \<Rightarrow> (nat \<Rightarrow> string)
    \<Rightarrow> string \<Rightarrow> string \<Rightarrow> ghl_context \<Rightarrow> ghl_message list \<Rightarrow> contact_memory_entry" where
  "syncEntry cal clock ids locId cid ghlContext messages =
     (let xs = indexMessages messages;
          facts = extractKeyFacts ids xs cid;
          sent = \<lparr> overall = calculateOverallSentiment xs, history = sentimentHistory xs \<rparr>;
          k = clockReadsBeforeEntry clock xs
      in \<lparr> contactId = cid, locationId = locId, lastUpdated = clock k,
           metadata = \<lparr> name = contactName ghlContext, email = None, phone = None,
                        tags = [], source = ''ghl'', firstSeen = clock (k + 1),
                        lastSeen = clock (k + 2) \<rparr>,
           interactions = finalInteractions cal clock xs,
           keyFacts = facts,
           preferences = ctx_preferences ghlContext,
           entry_sentiment = sent \<rparr>)"

text \<open>
  \<open>messages\<close> and \<open>ghlContext\<close> are what the two calls to the CRM plugin return.
\<close>

definition syncContactFromGHL :: "calendar \<Rightarrow> (nat \<Rightarrow> int) \<Rightarrow> (nat \<Rightarrow> string) \<Rightarrow> database option
    \<Rightarrow> string \<Rightarrow> string \<Rightarrow> ghl_context \<Rightarrow> ghl_message list \<Rightarrow> failure + database" where
  "syncContactFromGHL cal clock ids db locId cid ghlContext messages =
     (case db of
        None \<Rightarrow> Inl (DatabaseNotInitialized, None)
      | Some d \<Rightarrow> storeContactMemory (Some d) (syncEntry cal clock ids locId cid ghlContext messages))"

section \<open>Retrieval (retrieval.ts)\<close>

text \<open>The score is computed over the reals.\<close>

definition calculateRelevance :: "int \<Rightarrow> interaction \<Rightarrow> string list \<Rightarrow> real" where
  "calculateRelevance now i currentTopics =
     (let age = now - timestamp i;
          maxAge90 = 90 * 24 * 60 * 60 * 1000;
          recency = 0.5 * (1 - min (real_of_int age / maxAge90) 1);
          topic = (if length currentTopics > 0 \<and> length (topics i) > 0
                   then 0.3 * (real (length (filter (\<lambda>t. t \<in> set currentTopics) (topics i)))
                               / real (length currentTopics))
                   else 0);
          positive = (if sentiment i = Some Positive then 0.2 else 0);
          negative = (if sentiment i = Some Negative then 0.1 else 0)
      in 0 + recency + topic + positive + negative)"

text \<open>
  The two named parts of the score in the specification's formula, for comparison with the
  code.
\<close>

definition topicOverlapFraction :: "interaction \<Rightarrow> string list \<Rightarrow> real" where
  "topicOverlapFraction i currentTopics =
     (if length currentTopics > 0 \<and> length (topics i) > 0
      then real (length (filter (\<lambda>t. t \<in> set currentTopics) (topics i))) / real (length currentTopics)
      else 0)"

definition sentimentBonus :: "interaction \<Rightarrow> real" where
  "sentimentBonus i =
     (if sentiment i = Some Positive then 0.2 else if sentiment i = Some Negative then 0.1 else 0)"

section \<open>A calendar and sample data for concrete evaluations\<close>

text \<open>
  The calendar of a process that runs in UTC with the en-US locale: the civil year of a
  timestamp, the timestamp of January 1st of a year, and the date as M/D/YYYY.
\<close>

definition msPerDay :: int where
  "msPerDay = 24 * 60 * 60 * 1000"

definition civilOfDays :: "int \<Rightarrow> int \<times> int \<times> int" where
  "civilOfDays days =
     (let z = days + 719468;
          era = z div 146097;
          doe = z mod 146097;
          yoe = (doe - doe div 1460 + doe div 36524 - doe div 146096) div 365;
          doy = doe - (365 * yoe + yoe div 4 - yoe div 100);
          mp = (5 * doy + 2) div 153;
          d = doy - (153 * mp + 2) div 5 + 1;
          m = (if mp < 10 then mp + 3 else mp - 9);
          y = yoe + era * 400
      in (if m \<le> 2 then y + 1 else y, m, d))"

definition daysOfCivil :: "int \<Rightarrow> int \<Rightarrow> int \<Rightarrow> int" where
  "daysOfCivil y m d =
     (let y' = (if m \<le> 2 then y - 1 else y);
          era = y' div 400;
          yoe = y' mod 400;
          doy = (153 * (if m > 2 then m - 3 else m + 9) + 2) div 5 + d - 1;
          doe = yoe * 365 + yoe div 4 - yoe div 100 + doy
      in era * 146097 + doe - 719468)"

definition utcCalendar :: calendar where
  "utcCalendar =
     \<lparr> getFullYear = (\<lambda>ts. fst (civilOfDays (ts div msPerDay))),
       yearStart = (\<lambda>y. daysOfCivil y 1 1 * msPerDay),
       toLocaleDateString = (\<lambda>ts. case civilOfDays (ts div msPerDay) of
          (y, m, d) \<Rightarrow> show_int m @ ''/'' @ show_int d @ ''/'' @ show_int y) \<rparr>"

definition exampleInteraction :: "string \<Rightarrow> int \<Rightarrow> sentiment option \<Rightarrow> interaction" where
  "exampleInteraction i ts s =
     \<lparr> iid = i, timestamp = ts, channel = Sms, direction = Inbound, summary = ''hello'',
       fullContent = Some ''hello'', entities = [], sentiment = s, topics = [] \<rparr>"

definition exampleNow :: int where
  "exampleNow = 1700000000000"

definition exampleA :: interaction where
  "exampleA = (exampleInteraction ''a'' 1696544000000 (Some Positive)) \<lparr> topics := [''pricing'', ''billing''] \<rparr>"

definition exampleB :: interaction where
  "exampleB = (exampleInteraction ''b'' 1696457600000 (Some Neutral)) \<lparr> topics := [''pricing''] \<rparr>"

definition exampleS :: interaction where
  "exampleS = exampleInteraction ''s'' 1695000000000 None"

definition exampleZ :: interaction where
  "exampleZ = exampleInteraction ''z'' 1690000000000 None"

definition exampleBatch :: "interaction list" where
  "exampleBatch =
     replicate 20 (exampleInteraction ''r'' 1699990000000 None)
     @ [exampleA, exampleB, exampleS, exampleZ]"

definition exampleTalk :: interaction where
  "exampleTalk =
     (exampleInteraction ''t'' 1699990000000 None)
       \<lparr> fullContent := Some ''I'll call. I will send the quote today. But I want the blue one'' \<rparr>"

text \<open>A store that has just been initialized on a new file.\<close>

definition emptyDatabase :: "bool \<Rightarrow> database" where
  "emptyDatabase fk = \<lparr> contact_memory = [], interactions_tbl = [], key_facts_tbl = [], foreign_keys = fk \<rparr>"

definition exampleFact :: key_fact where
  "exampleFact =
     \<lparr> fact_id = ''f1'', fact_text = ''Commitment: send the quote today'', fact_source = ''a'',
       confidence = 7 / 10, fact_timestamp = 1696544000000, category = Commitment \<rparr>"

definition exampleEntry :: contact_memory_entry where
  "exampleEntry =
     \<lparr> contactId = ''c1'', locationId = ''loc'', lastUpdated = exampleNow,
       metadata = \<lparr> name = ''Ada'', email = None, phone = None, tags = [], source = ''ghl'',
                    firstSeen = exampleNow, lastSeen = exampleNow \<rparr>,
       interactions = [exampleA, exampleB],
       keyFacts = [exampleFact],
       preferences = [],
       entry_sentiment = \<lparr> overall = Positive, history = [] \<rparr> \<rparr>"

text \<open>
  An entry of another contact that holds the interaction \<open>exampleB\<close>, and the store
  after it has been written.
\<close>

definition exampleOtherEntry :: contact_memory_entry where
  "exampleOtherEntry =
     \<lparr> contactId = ''c2'', locationId = ''loc'', lastUpdated = exampleNow,
       metadata = \<lparr> name = ''Bob'', email = None, phone = None, tags = [], source = ''ghl'',
                    firstSeen = exampleNow, lastSeen = exampleNow \<rparr>,
       interactions = [exampleB],
       keyFacts = [],
       preferences = [],
       entry_sentiment = \<lparr> overall = Neutral, history = [] \<rparr> \<rparr>"

definition exampleSharedStore :: database where
  "exampleSharedStore = writtenDatabase (emptyDatabase True) exampleOtherEntry"

text \<open>
  Batches of messages with an empty body and the ids r, rr, rrr, ... or o, oo, ooo, ...,
  and the interactions they are indexed to.
\<close>

definition exampleClock :: "nat \<Rightarrow> int" where
  "exampleClock n = exampleNow"

definition exampleContext :: ghl_context where
  "exampleContext = \<lparr> contactName = ''Ada'', ctx_preferences = [] \<rparr>"

definition exampleMessage :: "char \<Rightarrow> int \<Rightarrow> nat \<Rightarrow> ghl_message" where
  "exampleMessage c ts n =
     \<lparr> msg_id = replicate (Suc n) c, conversationId = ''conv'', msg_type = T_SMS, body = [],
       msg_direction = Inbound, status = ''delivered'', dateAdded = ts \<rparr>"

definition recentMessages :: "nat \<Rightarrow> ghl_message list" where
  "recentMessages n = map (exampleMessage CHR ''r'' 1699990000000) [0..<n]"

definition agedMessages :: "nat \<Rightarrow> ghl_message list" where
  "agedMessages n = map (exampleMessage CHR ''o'' 1696544000000) [0..<n]"

definition exampleBacklog :: "ghl_message list" where
  "exampleBacklog = recentMessages 79 @ agedMessages 21"

definition indexedExample :: "char \<Rightarrow> int \<Rightarrow> nat \<Rightarrow> interaction" where
  "indexedExample c ts n =
     \<lparr> iid = replicate (Suc n) c, timestamp = ts, channel = Sms, direction = Inbound,
       summary = [], fullContent = Some [], entities = [], sentiment = Some Neutral, topics = [] \<rparr>"

section \<open>Lemmas about the compaction pipeline\<close>

lemma count_list_filter_eq: "count_list xs a = length (filter (\<lambda>s. s = a) xs)"
  by (induction xs) auto


lemma partitionLoop_full:
  "20 \<le> length recent \<Longrightarrow>
   partitionLoop now xs recent old =
     (recent @ filter (\<lambda>i. now - timestamp i < summaryThreshold) xs,
      old @ filter (\<lambda>i. \<not> now - timestamp i < summaryThreshold) xs)"
  by (induction xs arbitrary: recent old) (auto simp: Let_def)

lemma partitionLoop_filling:
  "length recent < 20 \<Longrightarrow>
   partitionLoop now xs recent old =
     (recent @ take (20 - length recent) xs
        @ filter (\<lambda>i. now - timestamp i < summaryThreshold) (drop (20 - length recent) xs),
      old @ filter (\<lambda>i. \<not> now - timestamp i < summaryThreshold) (drop (20 - length recent) xs))"
proof (induction xs arbitrary: recent old)
  case Nil
  then show ?case by simp
next
  case (Cons x xs)
  show ?case
  proof (cases "length (recent @ [x]) < 20")
    case True
    then have "20 - length recent = Suc (20 - length (recent @ [x]))" by simp
    with Cons.IH [OF True, of old] Cons.prems show ?thesis by (simp add: Let_def)
  next
    case False
    with Cons.prems have len: "length recent = 19" by simp
    then have "20 \<le> length (recent @ [x])" by simp
    from partitionLoop_full [OF this, of now xs old] Cons.prems len
    show ?thesis by (simp add: Let_def)
  qed
qed

lemma partitionLoop_start:
  "partitionLoop now xs [] [] =
     (take 20 xs @ filter (\<lambda>i. now - timestamp i < summaryThreshold) (drop 20 xs),
      filter (\<lambda>i. \<not> now - timestamp i < summaryThreshold) (drop 20 xs))"
  using partitionLoop_filling [of "[]" now xs "[]"] by simp

lemma groupByWeek_snoc:
  "groupByWeek cal (xs @ [x]) = group_push (getWeekKey cal (timestamp x)) x (groupByWeek cal xs)"
  by (simp add: groupByWeek_def)

lemma group_push_keys_map: "set (map fst (group_push k i G)) = insert k (set (map fst G))"
  by (induction k i G rule: group_push.induct) auto

lemma group_push_keys: "fst ` set (group_push k i G) = insert k (fst ` set G)"
  using group_push_keys_map [of k i G] by simp

lemma group_push_distinct: "distinct (map fst G) \<Longrightarrow> distinct (map fst (group_push k i G))"
proof (induction G)
  case Nil
  then show ?case by simp
next
  case (Cons a G)
  obtain k' g where a: "a = (k', g)" by (cases a)
  from Cons show ?case
    using group_push_keys [of k i G] by (auto simp: a)
qed

lemma group_push_mem:
  "distinct (map fst G) \<Longrightarrow> (k', g') \<in> set (group_push k i G) \<Longrightarrow>
   (k' \<noteq> k \<and> (k', g') \<in> set G)
   \<or> (k' = k \<and> k \<notin> fst ` set G \<and> g' = [i])
   \<or> (k' = k \<and> (\<exists>g. (k, g) \<in> set G \<and> g' = g @ [i]))"
proof (induction G)
  case Nil
  then show ?case by simp
next
  case (Cons a G)
  obtain k0 g0 where a: "a = (k0, g0)" by (cases a)
  show ?case
  proof (cases "k0 = k")
    case True
    with Cons.prems show ?thesis by (auto simp: a image_iff)
  next
    case False
    with Cons show ?thesis by (auto simp: a)
  qed
qed


lemma groupByWeek_invariant:
  "distinct (map fst (groupByWeek cal xs))
   \<and> fst ` set (groupByWeek cal xs) = (\<lambda>i. getWeekKey cal (timestamp i)) ` set xs
   \<and> (\<forall>(k, g) \<in> set (groupByWeek cal xs). g = filter (\<lambda>i. getWeekKey cal (timestamp i) = k) xs)"
proof (induction xs rule: rev_induct)
  case Nil
  then show ?case by (simp add: groupByWeek_def)
next
  case (snoc x xs)
  let ?G = "groupByWeek cal xs"
  let ?k = "getWeekKey cal (timestamp x)"
  from snoc have d: "distinct (map fst ?G)"
    and ks: "fst ` set ?G = (\<lambda>i. getWeekKey cal (timestamp i)) ` set xs"
    and fs: "\<And>k g. (k, g) \<in> set ?G \<Longrightarrow> g = filter (\<lambda>i. getWeekKey cal (timestamp i) = k) xs"
    by auto
  have 1: "distinct (map fst (groupByWeek cal (xs @ [x])))"
    by (simp add: groupByWeek_snoc group_push_distinct d)
  have 2: "fst ` set (groupByWeek cal (xs @ [x])) = (\<lambda>i. getWeekKey cal (timestamp i)) ` set (xs @ [x])"
    by (simp add: groupByWeek_snoc group_push_keys ks)
  have 3: "g' = filter (\<lambda>i. getWeekKey cal (timestamp i) = k') (xs @ [x])"
    if "(k', g') \<in> set (groupByWeek cal (xs @ [x]))" for k' g'
  proof -
    from that have "(k', g') \<in> set (group_push ?k x ?G)" by (simp add: groupByWeek_snoc)
    from group_push_mem [OF d this]
    consider (other) "k' \<noteq> ?k" "(k', g') \<in> set ?G"
      | (new) "k' = ?k" "?k \<notin> fst ` set ?G" "g' = [x]"
      | (ext) g where "k' = ?k" "(?k, g) \<in> set ?G" "g' = g @ [x]"
      by blast
    then show ?thesis
    proof cases
      case other
      then show ?thesis using fs [of k' g'] by simp
    next
      case new
      then have "?k \<notin> (\<lambda>i. getWeekKey cal (timestamp i)) ` set xs" using ks by simp
      then have "\<forall>i \<in> set xs. getWeekKey cal (timestamp i) \<noteq> ?k" by (auto simp: image_iff)
      then have "filter (\<lambda>i. getWeekKey cal (timestamp i) = ?k) xs = []" by (simp add: filter_empty_conv)
      with new show ?thesis by simp
    next
      case ext
      then show ?thesis using fs [of ?k g] by simp
    qed
  qed
  from 1 2 3 show ?case by blast
qed

lemma groupByWeek_nonempty: "(k, g) \<in> set (groupByWeek cal xs) \<Longrightarrow> g \<noteq> []"
proof
  assume m: "(k, g) \<in> set (groupByWeek cal xs)" and e: "g = []"
  from m have "k \<in> fst ` set (groupByWeek cal xs)" by (force simp: image_iff)
  then have "k \<in> (\<lambda>i. getWeekKey cal (timestamp i)) ` set xs"
    using groupByWeek_invariant [of cal xs] by simp
  then obtain i where "i \<in> set xs" "getWeekKey cal (timestamp i) = k" by auto
  then have "filter (\<lambda>i. getWeekKey cal (timestamp i) = k) xs \<noteq> []"
    by (auto simp: filter_empty_conv)
  moreover from m have "g = filter (\<lambda>i. getWeekKey cal (timestamp i) = k) xs"
    using groupByWeek_invariant [of cal xs] by auto
  ultimately show False using e by simp
qed

lemma set_dedupe: "set (dedupe seen xs) = set seen \<union> set xs"
  by (induction xs arbitrary: seen) auto

lemma distinct_dedupe: "distinct seen \<Longrightarrow> distinct (dedupe seen xs)"
  by (induction xs arbitrary: seen) auto

lemma newest_first_hd:
  "sorted (map (\<lambda>i. - timestamp i) g) \<Longrightarrow> i \<in> set g \<Longrightarrow> timestamp i \<le> timestamp (hd g)"
  by (cases g) auto

lemma sorted_sortNewestFirst: "sorted (map (\<lambda>i. - timestamp i) (sortNewestFirst xs))"
  by (simp add: sortNewestFirst_def)

lemma compactLocals_fields:
  "c_sorted (compactLocals cal now xs) = sortNewestFirst xs"
  "c_recent (compactLocals cal now xs) =
     take 20 (sortNewestFirst xs)
       @ filter (\<lambda>i. now - timestamp i < summaryThreshold) (drop 20 (sortNewestFirst xs))"
  "c_old (compactLocals cal now xs) =
     filter (\<lambda>i. \<not> now - timestamp i < summaryThreshold) (drop 20 (sortNewestFirst xs))"
  "c_toKeep (compactLocals cal now xs) =
     filter (\<lambda>i. now - timestamp i < maxAge) (c_old (compactLocals cal now xs))"
  "c_summarized (compactLocals cal now xs) =
     summarizeInteractions cal (c_toKeep (compactLocals cal now xs))"
  "c_compacted (compactLocals cal now xs) =
     c_recent (compactLocals cal now xs) @ c_summarized (compactLocals cal now xs)"
  "c_final (compactLocals cal now xs) = take maxInteractions (c_compacted (compactLocals cal now xs))"
  by (simp_all add: compactLocals_def Let_def partitionLoop_start)

lemma sorted_toKeep: "sorted (map (\<lambda>i. - timestamp i) (c_toKeep (compactLocals cal now xs)))"
proof -
  have "sorted (map (\<lambda>i. - timestamp i) (drop 20 (sortNewestFirst xs)))"
    using sorted_sortNewestFirst [of xs] by (simp add: drop_map [symmetric] sorted_wrt_drop)
  then show ?thesis
    by (simp add: compactLocals_fields sorted_filter)
qed

lemma summarized_groups:
  "c_summarized (compactLocals cal now xs) = map (summarizeGroup cal) (weekGroups cal now xs)"
  by (simp add: compactLocals_fields(5) summarizeInteractions_def weekGroups_def groupByWeek_def)

lemma weekGroups_member:
  assumes "(k, g) \<in> set (weekGroups cal now xs)"
  shows "g = filter (\<lambda>i. getWeekKey cal (timestamp i) = k) (c_toKeep (compactLocals cal now xs))"
    and "g \<noteq> []"
    and "sorted (map (\<lambda>i. - timestamp i) g)"
    and "set g \<subseteq> set (c_toKeep (compactLocals cal now xs))"
proof -
  show 1: "g = filter (\<lambda>i. getWeekKey cal (timestamp i) = k) (c_toKeep (compactLocals cal now xs))"
    using assms groupByWeek_invariant [of cal "c_toKeep (compactLocals cal now xs)"]
    by (auto simp: weekGroups_def)
  show "g \<noteq> []" using assms groupByWeek_nonempty by (auto simp: weekGroups_def)
  show "sorted (map (\<lambda>i. - timestamp i) g)"
    by (subst 1) (rule sorted_filter [OF sorted_toKeep])
  show "set g \<subseteq> set (c_toKeep (compactLocals cal now xs))"
    by (subst 1) auto
qed

lemma summarizeGroup_single: "length g = 1 \<Longrightarrow> summarizeGroup cal (k, g) = hd g \<and> g = [hd g]"
  by (cases g) (auto simp: summarizeGroup_def)

lemma summarizeGroup_many:
  "length g \<noteq> 1 \<Longrightarrow>
   iid (summarizeGroup cal (k, g)) = ''summary_'' @ k
   \<and> timestamp (summarizeGroup cal (k, g)) = timestamp (hd g)
   \<and> set (topics (summarizeGroup cal (k, g))) = (\<Union>i \<in> set g. set (topics i))
   \<and> distinct (topics (summarizeGroup cal (k, g)))
   \<and> sentiment (summarizeGroup cal (k, g)) = Some (determineOverallSentiment (definedSentiments g))"
  by (simp add: summarizeGroup_def Let_def set_dedupe distinct_dedupe)

lemma determineOverallSentiment_net:
  "determineOverallSentiment ss =
     (if count_list ss Negative < count_list ss Positive then Positive
      else if count_list ss Positive < count_list ss Negative then Negative
      else Neutral)"
  by (auto simp: determineOverallSentiment_def Let_def count_list_filter_eq)


lemma example_timestamps:
  "timestamp exampleA = 1696544000000" "timestamp exampleB = 1696457600000"
  "timestamp exampleS = 1695000000000" "timestamp exampleZ = 1690000000000"
  by (simp_all add: exampleA_def exampleB_def exampleS_def exampleZ_def exampleInteraction_def)

lemma example_ages:
  "exampleNow - timestamp exampleA = 3456000000" "exampleNow - timestamp exampleB = 3542400000"
  "exampleNow - timestamp exampleS = 5000000000" "exampleNow - timestamp exampleZ = 10000000000"
  "exampleNow - timestamp (exampleInteraction ''r'' 1699990000000 None) = 10000000"
  by (simp_all add: example_timestamps exampleNow_def exampleInteraction_def)

lemma example_weeks:
  "getWeekKey utcCalendar 1696544000000 = ''2023-W39''"
  "getWeekKey utcCalendar 1696457600000 = ''2023-W39''"
  "getWeekKey utcCalendar 1695000000000 = ''2023-W37''"
  by code_simp+

lemma exampleBatch_sorted: "sortNewestFirst exampleBatch = exampleBatch"
  unfolding sortNewestFirst_def
  by (rule sort_key_id_if_sorted)
     (simp add: exampleBatch_def sorted_append example_timestamps exampleInteraction_def)

lemma exampleBatch_split:
  "take 20 exampleBatch = replicate 20 (exampleInteraction ''r'' 1699990000000 None)"
  "drop 20 exampleBatch = [exampleA, exampleB, exampleS, exampleZ]"
  by (simp_all add: exampleBatch_def)

lemma example_old:
  "c_old (compactLocals cal exampleNow exampleBatch) = [exampleA, exampleB, exampleS, exampleZ]"
  by (simp add: compactLocals_fields(3) exampleBatch_sorted exampleBatch_split
      example_ages summaryThreshold_def)

lemma example_toKeep:
  "c_toKeep (compactLocals cal exampleNow exampleBatch) = [exampleA, exampleB, exampleS]"
  by (simp add: compactLocals_fields(4) example_old example_ages maxAge_def)

lemma example_groups:
  "weekGroups utcCalendar exampleNow exampleBatch
     = [(''2023-W39'', [exampleA, exampleB]), (''2023-W37'', [exampleS])]"
  by (simp add: weekGroups_def example_toKeep groupByWeek_def example_timestamps example_weeks)

section \<open>Lemmas about fact extraction\<close>

lemma pushClauses_append:
  "\<exists>new. pushClauses ids i label conf cat cs facts = facts @ new
     \<and> map fact_text new = map ((@) label) (filter clauseAccepted cs)
     \<and> (\<forall>f \<in> set new. category f = cat \<and> confidence f = conf)"
proof (induction cs arbitrary: facts)
  case Nil
  then show ?case by (simp add: pushClauses_def)
next
  case (Cons c cs)
  show ?case
  proof (cases "clauseAccepted c")
    case False
    with Cons [of facts] show ?thesis by (simp add: pushClauses_def)
  next
    case True
    let ?f = "\<lparr> fact_id = ids (length facts), fact_text = label @ c, fact_source = iid i,
               confidence = conf, fact_timestamp = timestamp i, category = cat \<rparr>"
    from Cons [of "facts @ [?f]"] obtain new where
      n: "pushClauses ids i label conf cat cs (facts @ [?f]) = (facts @ [?f]) @ new"
         "map fact_text new = map ((@) label) (filter clauseAccepted cs)"
         "\<forall>f \<in> set new. category f = cat \<and> confidence f = conf"
      by blast
    have "pushClauses ids i label conf cat (c # cs) facts = facts @ (?f # new)"
      using True n(1) by (simp add: pushClauses_def pushFact_def)
    moreover have "map fact_text (?f # new) = map ((@) label) (filter clauseAccepted (c # cs))"
      using True n(2) by simp
    moreover have "\<forall>f \<in> set (?f # new). category f = cat \<and> confidence f = conf"
      using n(3) by simp
    ultimately show ?thesis by blast
  qed
qed

lemma pushObjection_append:
  "\<exists>new. pushObjection ids i facts = facts @ new
     \<and> map fact_text new =
         (case List.find (\<lambda>word. includesStr (objectionText i) word) objectionWords of
            None \<Rightarrow> []
          | Some word \<Rightarrow> [''Potential objection mentioned: '' @ word])
     \<and> (\<forall>f \<in> set new. category f = Objection \<and> confidence f = 5 / 10)"
  by (cases "List.find (\<lambda>word. includesStr (objectionText i) word) objectionWords")
     (simp_all add: pushObjection_def objectionText_def pushFact_def Let_def)

lemma interactionFacts_parts:
  "\<exists>cm pf ob. interactionFacts ids facts i = facts @ cm @ pf @ ob
     \<and> map fact_text cm = map ((@) ''Commitment: '') (filter clauseAccepted (clauses commitmentPatterns i))
     \<and> (\<forall>f \<in> set cm. category f = Commitment \<and> confidence f = 7 / 10)
     \<and> map fact_text pf = map ((@) ''Preference: '') (filter clauseAccepted (clauses preferencePatterns i))
     \<and> (\<forall>f \<in> set pf. category f = Preference \<and> confidence f = 6 / 10)
     \<and> map fact_text ob =
         (case List.find (\<lambda>word. includesStr (objectionText i) word) objectionWords of
            None \<Rightarrow> []
          | Some word \<Rightarrow> [''Potential objection mentioned: '' @ word])
     \<and> (\<forall>f \<in> set ob. category f = Objection \<and> confidence f = 5 / 10)"
proof -
  obtain cm where cm:
    "pushClauses ids i ''Commitment: '' (7 / 10) Commitment (clauses commitmentPatterns i) facts = facts @ cm"
    "map fact_text cm = map ((@) ''Commitment: '') (filter clauseAccepted (clauses commitmentPatterns i))"
    "\<forall>f \<in> set cm. category f = Commitment \<and> confidence f = 7 / 10"
    using pushClauses_append [of ids i "''Commitment: ''" "7 / 10" Commitment
        "clauses commitmentPatterns i" facts] by blast
  obtain pf where pf:
    "pushClauses ids i ''Preference: '' (6 / 10) Preference (clauses preferencePatterns i) (facts @ cm)
       = (facts @ cm) @ pf"
    "map fact_text pf = map ((@) ''Preference: '') (filter clauseAccepted (clauses preferencePatterns i))"
    "\<forall>f \<in> set pf. category f = Preference \<and> confidence f = 6 / 10"
    using pushClauses_append [of ids i "''Preference: ''" "6 / 10" Preference
        "clauses preferencePatterns i" "facts @ cm"] by blast
  obtain ob where ob:
    "pushObjection ids i ((facts @ cm) @ pf) = ((facts @ cm) @ pf) @ ob"
    "map fact_text ob =
         (case List.find (\<lambda>word. includesStr (objectionText i) word) objectionWords of
            None \<Rightarrow> []
          | Some word \<Rightarrow> [''Potential objection mentioned: '' @ word])"
    "\<forall>f \<in> set ob. category f = Objection \<and> confidence f = 5 / 10"
    using pushObjection_append [of ids i "(facts @ cm) @ pf"] by blast
  have "interactionFacts ids facts i = facts @ cm @ pf @ ob"
    unfolding interactionFacts_def cm(1) pf(1) ob(1) by simp
  with cm(2,3) pf(2,3) ob(2,3) show ?thesis by blast
qed

lemma clauseAccepted_range: "clauseAccepted c \<longleftrightarrow> 6 \<le> length c \<and> length c < 200"
  by (auto simp: clauseAccepted_def)

lemma fact_policy_labelled:
  assumes "map fact_text fs = map ((@) label) (filter clauseAccepted cs)" and "f \<in> set fs"
  shows "\<exists>c. fact_text f = label @ c \<and> 6 \<le> length c \<and> length c < 200"
proof -
  from assms(2) have "fact_text f \<in> set (map fact_text fs)" by simp
  then have "fact_text f \<in> set (map ((@) label) (filter clauseAccepted cs))"
    by (simp only: assms(1))
  then obtain c where "fact_text f = label @ c" "clauseAccepted c" by auto
  then show ?thesis by (auto simp: clauseAccepted_range)
qed


lemma find_objection_text:
  assumes "map fact_text ob =
         (case List.find P objectionWords of
            None \<Rightarrow> []
          | Some word \<Rightarrow> [''Potential objection mentioned: '' @ word])"
    and "f \<in> set ob"
  shows "\<exists>w \<in> set objectionWords. fact_text f = ''Potential objection mentioned: '' @ w"
proof (cases "List.find P objectionWords")
  case None
  with assms show ?thesis by simp
next
  case (Some w)
  then have w: "w \<in> set objectionWords" by (auto simp: find_Some_iff)
  from assms(2) have "fact_text f \<in> set (map fact_text ob)" by simp
  with assms(1) Some have "fact_text f = ''Potential objection mentioned: '' @ w" by simp
  with w show ?thesis by blast
qed

lemma interactionFacts_policy:
  assumes "\<forall>f \<in> set facts. factPolicy f"
  shows "\<forall>f \<in> set (interactionFacts ids facts i). factPolicy f"
proof -
  from interactionFacts_parts [of ids facts i] obtain cm pf ob where p:
    "interactionFacts ids facts i = facts @ cm @ pf @ ob"
    "map fact_text cm = map ((@) ''Commitment: '') (filter clauseAccepted (clauses commitmentPatterns i))"
    "\<forall>f \<in> set cm. category f = Commitment \<and> confidence f = 7 / 10"
    "map fact_text pf = map ((@) ''Preference: '') (filter clauseAccepted (clauses preferencePatterns i))"
    "\<forall>f \<in> set pf. category f = Preference \<and> confidence f = 6 / 10"
    "map fact_text ob =
         (case List.find (\<lambda>word. includesStr (objectionText i) word) objectionWords of
            None \<Rightarrow> []
          | Some word \<Rightarrow> [''Potential objection mentioned: '' @ word])"
    "\<forall>f \<in> set ob. category f = Objection \<and> confidence f = 5 / 10"
    by blast
  have "factPolicy f" if "f \<in> set cm" for f
    using that p(3) fact_policy_labelled [OF p(2) that] unfolding factPolicy_def by blast
  moreover have "factPolicy f" if "f \<in> set pf" for f
    using that p(5) fact_policy_labelled [OF p(4) that] unfolding factPolicy_def by blast
  moreover have "factPolicy f" if "f \<in> set ob" for f
    using that p(7) find_objection_text [OF p(6) that] unfolding factPolicy_def by blast
  ultimately show ?thesis using assms by (auto simp: p(1))
qed

lemma extractKeyFacts_snoc:
  "extractKeyFacts ids (xs @ [x]) cid = interactionFacts ids (extractKeyFacts ids xs cid) x"
  by (simp add: extractKeyFacts_def)

lemma extractKeyFacts_all_policy: "\<forall>f \<in> set (extractKeyFacts ids xs cid). factPolicy f"
proof (induction xs rule: rev_induct)
  case Nil
  then show ?case by (simp add: extractKeyFacts_def)
next
  case (snoc x xs)
  then show ?case
    using interactionFacts_policy [of "extractKeyFacts ids xs cid" ids x]
    by (simp only: extractKeyFacts_snoc)
qed

lemma newFacts_parts:
  "interactionFacts ids facts i = facts @ newFacts ids facts i
   \<and> map fact_text (filter (\<lambda>f. category f = Commitment) (newFacts ids facts i))
       = map ((@) ''Commitment: '') (filter clauseAccepted (clauses commitmentPatterns i))
   \<and> map fact_text (filter (\<lambda>f. category f = Preference) (newFacts ids facts i))
       = map ((@) ''Preference: '') (filter clauseAccepted (clauses preferencePatterns i))
   \<and> map fact_text (filter (\<lambda>f. category f = Objection) (newFacts ids facts i))
       = (case List.find (\<lambda>word. includesStr (objectionText i) word) objectionWords of
            None \<Rightarrow> []
          | Some word \<Rightarrow> [''Potential objection mentioned: '' @ word])"
proof -
  from interactionFacts_parts [of ids facts i] obtain cm pf ob where p:
    "interactionFacts ids facts i = facts @ cm @ pf @ ob"
    "map fact_text cm = map ((@) ''Commitment: '') (filter clauseAccepted (clauses commitmentPatterns i))"
    "\<forall>f \<in> set cm. category f = Commitment \<and> confidence f = 7 / 10"
    "map fact_text pf = map ((@) ''Preference: '') (filter clauseAccepted (clauses preferencePatterns i))"
    "\<forall>f \<in> set pf. category f = Preference \<and> confidence f = 6 / 10"
    "map fact_text ob =
         (case List.find (\<lambda>word. includesStr (objectionText i) word) objectionWords of
            None \<Rightarrow> []
          | Some word \<Rightarrow> [''Potential objection mentioned: '' @ word])"
    "\<forall>f \<in> set ob. category f = Objection \<and> confidence f = 5 / 10"
    by blast
  have n: "newFacts ids facts i = cm @ pf @ ob" by (simp add: newFacts_def p(1))
  have fc: "filter (\<lambda>f. category f = Commitment) (cm @ pf @ ob) = cm"
    using p(3) p(5) p(7) by (simp add: filter_id_conv filter_empty_conv)
  have fp: "filter (\<lambda>f. category f = Preference) (cm @ pf @ ob) = pf"
    using p(3) p(5) p(7) by (simp add: filter_id_conv filter_empty_conv)
  have fo: "filter (\<lambda>f. category f = Objection) (cm @ pf @ ob) = ob"
    using p(3) p(5) p(7) by (simp add: filter_id_conv filter_empty_conv)
  show ?thesis
    unfolding n fc fp fo using p(1) p(2) p(4) p(6) by simp
qed

lemma newFacts_one_objection:
  "length (filter (\<lambda>f. category f = Objection) (newFacts ids facts i)) \<le> 1"
proof -
  have "length (map fact_text (filter (\<lambda>f. category f = Objection) (newFacts ids facts i))) \<le> 1"
    by (simp only: newFacts_parts) (simp split: option.split)
  then show ?thesis by simp
qed

lemma extractKeyFacts_objections:
  "length (filter (\<lambda>f. category f = Objection) (extractKeyFacts ids xs cid)) \<le> length xs"
proof (induction xs rule: rev_induct)
  case Nil
  then show ?case by (simp add: extractKeyFacts_def)
next
  case (snoc x xs)
  have "extractKeyFacts ids (xs @ [x]) cid
      = extractKeyFacts ids xs cid @ newFacts ids (extractKeyFacts ids xs cid) x"
    using newFacts_parts [of ids "extractKeyFacts ids xs cid" x]
    by (simp only: extractKeyFacts_snoc)
  then show ?case
    using snoc newFacts_one_objection [of ids "extractKeyFacts ids xs cid" x] by simp
qed

lemma exampleTalk_facts:
  "map category (extractKeyFacts show_nat [exampleTalk] ''c'')
     = [Commitment, Preference, Preference, Objection]"
  "map fact_text (extractKeyFacts show_nat [exampleTalk] ''c'')
     = [''Commitment: send the quote today'', ''Preference: the blue one'',
        ''Preference: the blue one'', ''Potential objection mentioned: but'']"
  "clauses commitmentPatterns exampleTalk = [''call'', ''send the quote today'']"
  by code_simp+

section \<open>Lemmas about the relevance score\<close>

lemma overlap_le:
  assumes "distinct ts"
  shows "length (filter (\<lambda>t. t \<in> set cur) ts) \<le> length cur"
proof -
  have "distinct (filter (\<lambda>t. t \<in> set cur) ts)" using assms by simp
  then have "card (set (filter (\<lambda>t. t \<in> set cur) ts)) = length (filter (\<lambda>t. t \<in> set cur) ts)"
    by (rule distinct_card)
  moreover have "card (set (filter (\<lambda>t. t \<in> set cur) ts)) \<le> card (set cur)"
    by (rule card_mono) auto
  moreover have "card (set cur) \<le> length cur" by (rule card_length)
  ultimately show ?thesis by linarith
qed

lemma calculateRelevance_formula:
  "calculateRelevance now i cur =
     0.5 * (1 - min (real_of_int (now - timestamp i) / 7776000000) 1)
     + 0.3 * topicOverlapFraction i cur + sentimentBonus i"
  by (simp add: calculateRelevance_def Let_def topicOverlapFraction_def sentimentBonus_def)

lemma score_bounds:
  fixes r o' b :: real
  assumes "0 \<le> r" "r \<le> 1" "0 \<le> o'" "o' \<le> 1" "0 \<le> b" "b \<le> 0.2"
  shows "0 \<le> 0.5 * (1 - r) + 0.3 * o' + b \<and> 0.5 * (1 - r) + 0.3 * o' + b \<le> 1"
  using assms by (auto simp: field_simps)

lemma calculateRelevance_range:
  assumes "timestamp i \<le> now" and "distinct (topics i)"
  shows "0 \<le> calculateRelevance now i cur \<and> calculateRelevance now i cur \<le> 1"
proof -
  let ?r = "min (real_of_int (now - timestamp i) / 7776000000) 1"
  have r: "0 \<le> ?r" "?r \<le> 1" using assms(1) by simp_all
  have o: "0 \<le> topicOverlapFraction i cur" by (simp add: topicOverlapFraction_def)
  have o1: "topicOverlapFraction i cur \<le> 1"
    using overlap_le [OF assms(2), of cur]
    by (simp add: topicOverlapFraction_def divide_le_eq_1)
  have b: "0 \<le> sentimentBonus i" "sentimentBonus i \<le> 0.2" by (simp_all add: sentimentBonus_def)
  show ?thesis
    unfolding calculateRelevance_formula by (rule score_bounds [OF r o o1 b])
qed

section \<open>Lemmas about the store\<close>

lemma insertInteractions_result:
  "insertInteractions d cid xs = Inr d' \<Longrightarrow>
     d' = d \<lparr> interactions_tbl := interactions_tbl d @ map (interactionRow cid) xs \<rparr>"
proof (induction xs arbitrary: d)
  case Nil
  then show ?case by simp
next
  case (Cons x xs)
  from Cons.prems obtain d1 where d1: "insertInteraction d cid x = Inr d1"
    and r: "insertInteractions d1 cid xs = Inr d'"
    by (auto split: sum.splits)
  from d1 have "d1 = d \<lparr> interactions_tbl := interactions_tbl d @ [interactionRow cid x] \<rparr>"
    by (auto simp: insertInteraction_def split: if_splits)
  with Cons.IH [OF r] show ?case by simp
qed

lemma insertKeyFacts_result:
  "insertKeyFacts d cid fs = Inr d' \<Longrightarrow>
     d' = d \<lparr> key_facts_tbl := key_facts_tbl d @ map (keyFactRow cid) fs \<rparr>"
proof (induction fs arbitrary: d)
  case Nil
  then show ?case by simp
next
  case (Cons f fs)
  from Cons.prems obtain d1 where d1: "insertKeyFact d cid f = Inr d1"
    and r: "insertKeyFacts d1 cid fs = Inr d'"
    by (auto split: sum.splits)
  from d1 have "d1 = d \<lparr> key_facts_tbl := key_facts_tbl d @ [keyFactRow cid f] \<rparr>"
    by (auto simp: insertKeyFact_def split: if_splits)
  with Cons.IH [OF r] show ?case by simp
qed

lemma insertInteractions_succeeds:
  "distinct (map iid xs) \<Longrightarrow> set (map iid xs) \<inter> set (map ir_id (interactions_tbl d)) = {} \<Longrightarrow>
   (foreign_keys d \<longrightarrow> cid \<in> set (map contact_id (contact_memory d))) \<Longrightarrow>
   \<exists>d'. insertInteractions d cid xs = Inr d'"
proof (induction xs arbitrary: d)
  case Nil
  then show ?case by simp
next
  case (Cons x xs)
  let ?d1 = "d \<lparr> interactions_tbl := interactions_tbl d @ [interactionRow cid x] \<rparr>"
  from Cons.prems have 1: "insertInteraction d cid x = Inr ?d1"
    by (auto simp: insertInteraction_def)
  have "\<exists>d'. insertInteractions ?d1 cid xs = Inr d'"
  proof (rule Cons.IH)
    show "distinct (map iid xs)" using Cons.prems(1) by simp
    show "set (map iid xs) \<inter> set (map ir_id (interactions_tbl ?d1)) = {}"
      using Cons.prems(1,2) by (auto simp: interactionRow_def)
    show "foreign_keys ?d1 \<longrightarrow> cid \<in> set (map contact_id (contact_memory ?d1))"
      using Cons.prems(3) by simp
  qed
  with 1 show ?case by simp
qed

lemma insertKeyFacts_succeeds:
  "distinct (map fact_id fs) \<Longrightarrow> set (map fact_id fs) \<inter> set (map kr_id (key_facts_tbl d)) = {} \<Longrightarrow>
   (foreign_keys d \<longrightarrow> cid \<in> set (map contact_id (contact_memory d))) \<Longrightarrow>
   \<exists>d'. insertKeyFacts d cid fs = Inr d'"
proof (induction fs arbitrary: d)
  case Nil
  then show ?case by simp
next
  case (Cons f fs)
  let ?d1 = "d \<lparr> key_facts_tbl := key_facts_tbl d @ [keyFactRow cid f] \<rparr>"
  from Cons.prems have 1: "insertKeyFact d cid f = Inr ?d1"
    by (auto simp: insertKeyFact_def)
  have "\<exists>d'. insertKeyFacts ?d1 cid fs = Inr d'"
  proof (rule Cons.IH)
    show "distinct (map fact_id fs)" using Cons.prems(1) by simp
    show "set (map fact_id fs) \<inter> set (map kr_id (key_facts_tbl ?d1)) = {}"
      using Cons.prems(1,2) by (auto simp: keyFactRow_def)
    show "foreign_keys ?d1 \<longrightarrow> cid \<in> set (map contact_id (contact_memory ?d1))"
      using Cons.prems(3) by simp
  qed
  with 1 show ?case by simp
qed

lemma storeContactMemory_result:
  assumes "storeContactMemory (Some d) memory = Inr d'"
  shows "d' = writtenDatabase d memory"
proof -
  let ?d0 = "deleteChildren (upsertContact d memory) (contactId memory)"
  from assms obtain d1 where 1: "insertInteractions ?d0 (contactId memory) (interactions memory) = Inr d1"
    and 2: "insertKeyFacts d1 (contactId memory) (keyFacts memory) = Inr d'"
    by (auto simp: storeContactMemory_def split: sum.splits)
  from insertInteractions_result [OF 1] insertKeyFacts_result [OF 2]
  show ?thesis by (simp add: writtenDatabase_def Let_def)
qed

lemma storeContactMemory_succeeds:
  assumes "distinct (map iid (interactions memory))"
    and "set (map iid (interactions memory))
         \<inter> set (map ir_id (filter (\<lambda>r. ir_contact_id r \<noteq> contactId memory) (interactions_tbl d))) = {}"
    and "distinct (map fact_id (keyFacts memory))"
    and "set (map fact_id (keyFacts memory))
         \<inter> set (map kr_id (filter (\<lambda>r. kr_contact_id r \<noteq> contactId memory) (key_facts_tbl d))) = {}"
  shows "storeContactMemory (Some d) memory = Inr (writtenDatabase d memory)"
proof -
  let ?cid = "contactId memory"
  let ?d0 = "deleteChildren (upsertContact d memory) ?cid"
  have fk: "?cid \<in> set (map contact_id (contact_memory ?d0))"
    by (simp add: deleteChildren_def upsertContact_def)
  have "\<exists>d1. insertInteractions ?d0 ?cid (interactions memory) = Inr d1"
    using assms(1,2) fk
    by (intro insertInteractions_succeeds) (simp_all add: deleteChildren_def upsertContact_def)
  then obtain d1 where 1: "insertInteractions ?d0 ?cid (interactions memory) = Inr d1" ..
  note r1 = insertInteractions_result [OF 1]
  have "\<exists>d2. insertKeyFacts d1 ?cid (keyFacts memory) = Inr d2"
    using assms(3,4) fk
    by (intro insertKeyFacts_succeeds) (simp_all add: r1 deleteChildren_def upsertContact_def)
  then obtain d2 where 2: "insertKeyFacts d1 ?cid (keyFacts memory) = Inr d2" ..
  have s: "storeContactMemory (Some d) memory = Inr d2"
    by (simp add: storeContactMemory_def 1 2)
  from storeContactMemory_result [OF s] s show ?thesis by simp
qed

lemma find_append:
  "List.find P (xs @ ys) = (case List.find P xs of None \<Rightarrow> List.find P ys | Some x \<Rightarrow> Some x)"
  by (induction xs) auto

lemma find_filter_not: "List.find P (filter (\<lambda>x. \<not> P x) xs) = None"
  by (induction xs) auto

lemma getContactMemory_written:
  "getContactMemory (Some (writtenDatabase d memory)) (contactId memory) =
     Inr (Some \<lparr> contactId = contactId memory, locationId = locationId memory,
                 lastUpdated = lastUpdated memory, metadata = metadata memory,
                 interactions =
                   map rowInteraction
                     (sort_key (\<lambda>r. - ir_timestamp r)
                        (map (interactionRow (contactId memory)) (interactions memory))),
                 keyFacts =
                   map rowKeyFact
                     (sort_key (\<lambda>r. - kr_confidence r)
                        (map (keyFactRow (contactId memory)) (keyFacts memory))),
                 preferences = preferences memory,
                 entry_sentiment = entry_sentiment memory \<rparr>)"
proof -
  let ?cid = "contactId memory"
  have f: "List.find (\<lambda>r. contact_id r = ?cid) (contact_memory (writtenDatabase d memory))
      = Some \<lparr> contact_id = contactId memory, location_id = locationId memory,
                last_updated = lastUpdated memory, metadata_col = metadata memory,
                preferences_col = preferences memory, sentiment_col = entry_sentiment memory,
                created_at = firstSeen (metadata memory) \<rparr>"
    using find_filter_not [of "\<lambda>r. contact_id r = ?cid" "contact_memory d"]
    by (simp add: writtenDatabase_def Let_def deleteChildren_def upsertContact_def find_append)
  have i: "filter (\<lambda>r. ir_contact_id r = ?cid) (interactions_tbl (writtenDatabase d memory))
      = map (interactionRow ?cid) (interactions memory)"
    by (simp add: writtenDatabase_def Let_def deleteChildren_def upsertContact_def
        filter_map o_def interactionRow_def)
  have k: "filter (\<lambda>r. kr_contact_id r = ?cid) (key_facts_tbl (writtenDatabase d memory))
      = map (keyFactRow ?cid) (keyFacts memory)"
    by (simp add: writtenDatabase_def Let_def deleteChildren_def upsertContact_def
        filter_map o_def keyFactRow_def)
  show ?thesis by (simp add: getContactMemory_def f i k)
qed

lemma map_unchanged:
  "cid \<notin> set (map contact_id rows) \<Longrightarrow>
   map (\<lambda>r. if contact_id r = cid then r \<lparr> last_updated := now \<rparr> else r) rows = rows"
  by (induction rows) auto

lemma find_absent: "cid \<notin> set (map contact_id rows) \<Longrightarrow> List.find (\<lambda>r. contact_id r = cid) rows = None"
  by (induction rows) auto

lemma insertInteractions_returns:
  "insertInteractions d cid xs = Inr d' \<Longrightarrow>
     distinct (map iid xs) \<and> set (map iid xs) \<inter> set (map ir_id (interactions_tbl d)) = {}"
proof (induction xs arbitrary: d)
  case Nil
  then show ?case by simp
next
  case (Cons x xs)
  from Cons.prems obtain d1 where d1: "insertInteraction d cid x = Inr d1"
    and r: "insertInteractions d1 cid xs = Inr d'"
    by (auto split: sum.splits)
  from d1 have n: "iid x \<notin> set (map ir_id (interactions_tbl d))"
    and e: "d1 = d \<lparr> interactions_tbl := interactions_tbl d @ [interactionRow cid x] \<rparr>"
    by (auto simp: insertInteraction_def split: if_splits)
  from Cons.IH [OF r] have "distinct (map iid xs)"
    and "set (map iid xs) \<inter> set (map ir_id (interactions_tbl d1)) = {}"
    by simp_all
  with n e show ?case by (auto simp: interactionRow_def)
qed

lemma insertKeyFacts_returns:
  "insertKeyFacts d cid fs = Inr d' \<Longrightarrow>
     distinct (map fact_id fs) \<and> set (map fact_id fs) \<inter> set (map kr_id (key_facts_tbl d)) = {}"
proof (induction fs arbitrary: d)
  case Nil
  then show ?case by simp
next
  case (Cons f fs)
  from Cons.prems obtain d1 where d1: "insertKeyFact d cid f = Inr d1"
    and r: "insertKeyFacts d1 cid fs = Inr d'"
    by (auto split: sum.splits)
  from d1 have n: "fact_id f \<notin> set (map kr_id (key_facts_tbl d))"
    and e: "d1 = d \<lparr> key_facts_tbl := key_facts_tbl d @ [keyFactRow cid f] \<rparr>"
    by (auto simp: insertKeyFact_def split: if_splits)
  from Cons.IH [OF r] have "distinct (map fact_id fs)"
    and "set (map fact_id fs) \<inter> set (map kr_id (key_facts_tbl d1)) = {}"
    by simp_all
  with n e show ?case by (auto simp: keyFactRow_def)
qed

lemma storeContactMemory_returns:
  assumes "storeContactMemory (Some d) memory = Inr d'"
  shows "distinct (map iid (interactions memory))
    \<and> set (map iid (interactions memory))
        \<inter> set (map ir_id (filter (\<lambda>r. ir_contact_id r \<noteq> contactId memory) (interactions_tbl d))) = {}
    \<and> distinct (map fact_id (keyFacts memory))
    \<and> set (map fact_id (keyFacts memory))
        \<inter> set (map kr_id (filter (\<lambda>r. kr_contact_id r \<noteq> contactId memory) (key_facts_tbl d))) = {}"
proof -
  let ?d0 = "deleteChildren (upsertContact d memory) (contactId memory)"
  from assms obtain d1 where 1: "insertInteractions ?d0 (contactId memory) (interactions memory) = Inr d1"
    and 2: "insertKeyFacts d1 (contactId memory) (keyFacts memory) = Inr d'"
    by (auto simp: storeContactMemory_def split: sum.splits)
  note r1 = insertInteractions_result [OF 1]
  from insertInteractions_returns [OF 1] insertKeyFacts_returns [OF 2]
  show ?thesis by (simp add: r1 deleteChildren_def upsertContact_def)
qed

section \<open>Lemmas about sync\<close>

lemma index_empty:
  "extractEntities [] = []" "extractTopics [] = []" "analyzeSentiment [] = Neutral"
  "summarizeMessage [] = []" "mapChannelType T_SMS = Sms"
  by code_simp+

lemma indexMessage_example: "indexMessage (exampleMessage c ts n) = indexedExample c ts n"
  by (simp add: indexMessage_def exampleMessage_def indexedExample_def index_empty)

lemma indexMessages_example:
  "indexMessages (map (exampleMessage c ts) ns) = map (indexedExample c ts) ns"
  by (simp add: indexMessages_def indexMessage_example)

lemma interactionFacts_empty_content:
  "fullContent i = Some [] \<Longrightarrow> interactionFacts ids [] i = []"
  by (simp add: interactionFacts_def clauses_def matchAll_def pushClauses_def pushObjection_def
      toLowerCase_def objectionWords_def commitmentPatterns_def preferencePatterns_def)

lemma extractKeyFacts_empty_content:
  "\<forall>i \<in> set xs. fullContent i = Some [] \<Longrightarrow> extractKeyFacts ids xs cid = []"
proof (induction xs rule: rev_induct)
  case Nil
  then show ?case by (simp add: extractKeyFacts_def)
next
  case (snoc x xs)
  then show ?case by (simp add: extractKeyFacts_snoc interactionFacts_empty_content)
qed

lemma finalInteractions_length:
  "(shouldCompact (clock 0) xs \<longrightarrow> length (finalInteractions cal clock xs) \<le> 100)
   \<and> (\<not> shouldCompact (clock 0) xs \<longrightarrow> finalInteractions cal clock xs = xs)"
  by (auto simp: finalInteractions_def compactRun_def Let_def compactLocals_fields(7)
      maxInteractions_def min_def)

lemma sync_result:
  assumes "syncContactFromGHL cal clock ids (Some d) loc cid ctx msgs = Inr d'"
  shows "storedInteractions (Inr d') cid =
     Some (map rowInteraction
             (sort_key (\<lambda>r. - ir_timestamp r)
                (map (interactionRow cid) (finalInteractions cal clock (indexMessages msgs)))))"
proof -
  let ?e = "syncEntry cal clock ids loc cid ctx msgs"
  have c: "contactId ?e = cid" by (simp add: syncEntry_def Let_def)
  have i: "interactions ?e = finalInteractions cal clock (indexMessages msgs)"
    by (simp add: syncEntry_def Let_def)
  from assms have "storeContactMemory (Some d) ?e = Inr d'"
    by (simp add: syncContactFromGHL_def)
  then have "d' = writtenDatabase d ?e" by (rule storeContactMemory_result)
  then show ?thesis
    using getContactMemory_written [of d ?e]
    by (simp add: storedInteractions_def c i)
qed

lemma groupByWeek_single:
  "xs \<noteq> [] \<Longrightarrow> \<forall>i \<in> set xs. getWeekKey cal (timestamp i) = k \<Longrightarrow> groupByWeek cal xs = [(k, xs)]"
proof (induction xs rule: rev_induct)
  case Nil
  then show ?case by simp
next
  case (snoc x xs)
  show ?case
  proof (cases "xs = []")
    case True
    with snoc.prems show ?thesis by (simp add: groupByWeek_def)
  next
    case False
    with snoc have "groupByWeek cal xs = [(k, xs)]" by simp
    with snoc.prems show ?thesis by (simp add: groupByWeek_snoc)
  qed
qed

lemma stored_order:
  "sorted (map (\<lambda>i. - timestamp i) ys) \<Longrightarrow>
   sort_key (\<lambda>r. - ir_timestamp r) (map (interactionRow cid) ys) = map (interactionRow cid) ys"
  by (rule sort_key_id_if_sorted) (simp add: o_def interactionRow_def)

lemma stored_ids: "map iid (map rowInteraction (map (interactionRow cid) ys)) = map iid ys"
  by (simp add: o_def rowInteraction_def interactionRow_def)

lemma indexed_ids_distinct: "distinct (map iid (map (indexedExample c ts) [0..<n]))"
  by (simp add: distinct_map o_def indexedExample_def inj_on_def)

lemma indexed_content: "\<forall>i \<in> set (map (indexedExample c ts) ns). fullContent i = Some []"
  by (simp add: indexedExample_def)

lemma recent_not_compacted:
  "\<not> shouldCompact (exampleClock 0) (map (indexedExample c 1699990000000) ns)"
  by (simp add: shouldCompact_def exampleClock_def exampleNow_def summaryThreshold_def
      filter_map o_def indexedExample_def)

lemma sync_on_empty_store:
  assumes "distinct (map iid (finalInteractions cal clock (indexMessages msgs)))"
    and "extractKeyFacts ids (indexMessages msgs) cid = []"
  shows "syncContactFromGHL cal clock ids (Some (emptyDatabase fk)) loc cid ctx msgs
     = Inr (writtenDatabase (emptyDatabase fk) (syncEntry cal clock ids loc cid ctx msgs))"
  unfolding syncContactFromGHL_def option.case
  by (rule storeContactMemory_succeeds)
     (use assms in \<open>simp_all add: syncEntry_def Let_def emptyDatabase_def\<close>)

lemma compact_two_parts:
  assumes "20 \<le> length R"
    and "\<forall>i \<in> set R. now - timestamp i < summaryThreshold"
    and "\<forall>i \<in> set Q. \<not> now - timestamp i < summaryThreshold \<and> now - timestamp i < maxAge"
    and "sortNewestFirst (R @ Q) = R @ Q"
  shows "c_recent (compactLocals cal now (R @ Q)) = R"
    and "c_old (compactLocals cal now (R @ Q)) = Q"
    and "c_toKeep (compactLocals cal now (R @ Q)) = Q"
proof -
  have t: "take 20 (R @ Q) = take 20 R" and d: "drop 20 (R @ Q) = drop 20 R @ Q"
    using assms(1) by simp_all
  have fr: "filter (\<lambda>i. now - timestamp i < summaryThreshold) (drop 20 R) = drop 20 R"
    using assms(2) by (auto simp: filter_id_conv dest: in_set_dropD)
  have fq: "filter (\<lambda>i. now - timestamp i < summaryThreshold) Q = []"
    using assms(3) by (simp add: filter_empty_conv)
  have nr: "filter (\<lambda>i. \<not> now - timestamp i < summaryThreshold) (drop 20 R) = []"
    using assms(2) by (auto simp: filter_empty_conv dest: in_set_dropD)
  have nq: "filter (\<lambda>i. \<not> now - timestamp i < summaryThreshold) Q = Q"
    using assms(3) by (simp add: filter_id_conv)
  show "c_recent (compactLocals cal now (R @ Q)) = R"
    unfolding compactLocals_fields(2) assms(4) t d by (simp add: fr fq)
  show o: "c_old (compactLocals cal now (R @ Q)) = Q"
    unfolding compactLocals_fields(3) assms(4) d by (simp add: nr nq)
  show "c_toKeep (compactLocals cal now (R @ Q)) = Q"
    using assms(3) by (simp add: compactLocals_fields(4) o filter_id_conv)
qed

lemma backlog_indexed:
  "indexMessages exampleBacklog =
     map (indexedExample CHR ''r'' 1699990000000) [0..<79]
     @ map (indexedExample CHR ''o'' 1696544000000) [0..<21]"
  by (simp add: exampleBacklog_def recentMessages_def agedMessages_def indexMessages_def
      indexMessage_example)

lemma indexed_timestamp: "timestamp (indexedExample c ts n) = ts"
  by (simp add: indexedExample_def)

lemma backlog_sorted:
  "sortNewestFirst (map (indexedExample CHR ''r'' 1699990000000) [0..<79]
     @ map (indexedExample CHR ''o'' 1696544000000) [0..<21])
   = map (indexedExample CHR ''r'' 1699990000000) [0..<79]
     @ map (indexedExample CHR ''o'' 1696544000000) [0..<21]"
  unfolding sortNewestFirst_def
  by (rule sort_key_id_if_sorted)
     (simp add: sorted_append o_def indexed_timestamp sorted_map)

lemma backlog_should:
  "shouldCompact exampleNow
     (map (indexedExample CHR ''r'' 1699990000000) [0..<79]
      @ map (indexedExample CHR ''o'' 1696544000000) [0..<21])"
  by (simp add: shouldCompact_def maxInteractions_def exampleNow_def
      summaryThreshold_def filter_map o_def indexed_timestamp)

lemma backlog_parts:
  "c_recent (compactLocals cal exampleNow
      (map (indexedExample CHR ''r'' 1699990000000) [0..<79]
       @ map (indexedExample CHR ''o'' 1696544000000) [0..<21]))
    = map (indexedExample CHR ''r'' 1699990000000) [0..<79]"
  "c_toKeep (compactLocals cal exampleNow
      (map (indexedExample CHR ''r'' 1699990000000) [0..<79]
       @ map (indexedExample CHR ''o'' 1696544000000) [0..<21]))
    = map (indexedExample CHR ''o'' 1696544000000) [0..<21]"
  "c_old (compactLocals cal exampleNow
      (map (indexedExample CHR ''r'' 1699990000000) [0..<79]
       @ map (indexedExample CHR ''o'' 1696544000000) [0..<21]))
    = map (indexedExample CHR ''o'' 1696544000000) [0..<21]"
  by (rule compact_two_parts;
      simp add: indexed_timestamp exampleNow_def summaryThreshold_def maxAge_def
        backlog_sorted)+

lemma backlog_groups:
  "weekGroups utcCalendar exampleNow
      (map (indexedExample CHR ''r'' 1699990000000) [0..<79]
       @ map (indexedExample CHR ''o'' 1696544000000) [0..<21])
    = [(''2023-W39'', map (indexedExample CHR ''o'' 1696544000000) [0..<21])]"
  unfolding weekGroups_def backlog_parts
  by (rule groupByWeek_single) (simp_all add: indexed_timestamp example_weeks)

lemma backlog_final:
  "c_final (compactLocals utcCalendar exampleNow
      (map (indexedExample CHR ''r'' 1699990000000) [0..<79]
       @ map (indexedExample CHR ''o'' 1696544000000) [0..<21]))
    = map (indexedExample CHR ''r'' 1699990000000) [0..<79]
      @ [summarizeGroup utcCalendar
           (''2023-W39'', map (indexedExample CHR ''o'' 1696544000000) [0..<21])]"
  by (simp add: compactLocals_fields(7) compactLocals_fields(6) backlog_parts summarized_groups
      backlog_groups maxInteractions_def)

lemma backlog_counts:
  "fst (compactRun utcCalendar exampleNow
      (map (indexedExample CHR ''r'' 1699990000000) [0..<79]
       @ map (indexedExample CHR ''o'' 1696544000000) [0..<21]))
    = \<lparr> originalCount = 100, compactedCount = 80, summarized = 1, removed = 0 \<rparr>"
  by (simp add: compactRun_def Let_def backlog_final backlog_parts summarized_groups backlog_groups
      compactLocals_fields(6))

lemma backlog_written:
  "finalInteractions utcCalendar exampleClock
      (map (indexedExample CHR ''r'' 1699990000000) [0..<79]
       @ map (indexedExample CHR ''o'' 1696544000000) [0..<21])
    = map (indexedExample CHR ''r'' 1699990000000) [0..<79]
      @ [indexedExample CHR ''o'' 1696544000000 0]"
proof -
  have "take 80 (map (indexedExample CHR ''r'' 1699990000000) [0..<79]
       @ map (indexedExample CHR ''o'' 1696544000000) [0..<21])
    = map (indexedExample CHR ''r'' 1699990000000) [0..<79]
      @ take 1 (map (indexedExample CHR ''o'' 1696544000000) [0..<21])"
    by simp
  also have "take 1 (map (indexedExample CHR ''o'' 1696544000000) [0..<21])
    = [indexedExample CHR ''o'' 1696544000000 0]"
    by (simp add: take_map [symmetric] upt_conv_Cons)
  finally show ?thesis
    using backlog_should backlog_counts
    by (simp add: finalInteractions_def exampleClock_def compactRun_def Let_def
        compactLocals_fields(1) backlog_sorted)
qed

lemma finalInteractions_compacting:
  "shouldCompact (clock 0) xs \<Longrightarrow>
   finalInteractions cal clock xs
     = take (length (c_final (compactLocals cal (clock 1) xs))) (sortNewestFirst xs)"
  by (simp add: finalInteractions_def compactRun_def Let_def compactLocals_fields(1))

lemma backlog_sync:
  "syncContactFromGHL utcCalendar exampleClock show_nat (Some (emptyDatabase True))
       ''loc'' ''c1'' exampleContext exampleBacklog
     = Inr (writtenDatabase (emptyDatabase True)
              (syncEntry utcCalendar exampleClock show_nat ''loc'' ''c1'' exampleContext exampleBacklog))"
proof (rule sync_on_empty_store)
  show "distinct (map iid (finalInteractions utcCalendar exampleClock (indexMessages exampleBacklog)))"
    unfolding backlog_indexed backlog_written
    using indexed_ids_distinct [of "CHR ''r''" 1699990000000 79]
    by (auto simp: indexedExample_def)
  show "extractKeyFacts show_nat (indexMessages exampleBacklog) ''c1'' = []"
    unfolding backlog_indexed
    by (rule extractKeyFacts_empty_content) (auto simp: indexedExample_def)
qed

lemma backlog_stored:
  "storedInteractions
     (syncContactFromGHL utcCalendar exampleClock show_nat (Some (emptyDatabase True))
        ''loc'' ''c1'' exampleContext exampleBacklog) ''c1''
   = Some (map rowInteraction (map (interactionRow ''c1'')
       (map (indexedExample CHR ''r'' 1699990000000) [0..<79]
        @ [indexedExample CHR ''o'' 1696544000000 0])))"
proof -
  have so: "sorted (map (\<lambda>i. - timestamp i)
      (map (indexedExample CHR ''r'' 1699990000000) [0..<79]
        @ [indexedExample CHR ''o'' 1696544000000 0]))"
    by (simp add: sorted_append o_def indexed_timestamp sorted_map)
  show ?thesis
    unfolding backlog_sync sync_result [OF backlog_sync] backlog_indexed backlog_written
      stored_order [OF so] ..
qed

section \<open>shouldCompact\<close>

text \<open>
  Claim C5. \<open>shouldCompact\<close> is true exactly when there are at least 100 interactions
  and more than 20 of them are older than 30 days (2592000000 ms); below 100
  interactions it is false whatever their ages.
\<close>

theorem shouldCompact_iff:
  "(shouldCompact now xs \<longleftrightarrow>
      100 \<le> length xs \<and> 20 < length (filter (\<lambda>i. 2592000000 < now - timestamp i) xs))
   \<and> (length xs < 100 \<longrightarrow> \<not> shouldCompact now xs)"
  by (auto simp: shouldCompact_def maxInteractions_def summaryThreshold_def Let_def)

theorem shouldCompact_iff_witness:
  "length ([] :: interaction list) < 100 \<and> \<not> shouldCompact 0 []
   \<and> shouldCompact 3000000000 (replicate 100 (exampleInteraction ''a'' 0 None))
   \<and> \<not> shouldCompact 3000000000 (replicate 100 (exampleInteraction ''a'' 2000000000 None))"
  using shouldCompact_iff [of 0 "[]"]
    shouldCompact_iff [of 3000000000 "replicate 100 (exampleInteraction ''a'' 0 None)"]
    shouldCompact_iff [of 3000000000 "replicate 100 (exampleInteraction ''a'' 2000000000 None)"]
  by (simp add: exampleInteraction_def)

section \<open>Overall sentiment\<close>

text \<open>
  Claim C6, as the code has it. The overall sentiment looks at the sentiments present
  among the first 10 interactions of the list (the newest, since the messages arrive
  newest first) and compares the positive count with the negative count only: more
  positives give positive, more negatives give negative, everything else (a tie, no
  sentiment at all) gives neutral. Neutral entries never vote. In particular
  [positive, positive, negative] gives positive and [positive, negative] gives neutral.
\<close>

theorem calculateOverallSentiment_net_vote:
  "calculateOverallSentiment xs =
     (let ss = definedSentiments (take 10 xs) in
      if count_list ss Negative < count_list ss Positive then Positive
      else if count_list ss Positive < count_list ss Negative then Negative
      else Neutral)
   \<and> calculateOverallSentiment [] = Neutral
   \<and> (sentiment a = Some Positive \<and> sentiment b = Some Positive \<and> sentiment c = Some Negative
        \<longrightarrow> calculateOverallSentiment [a, b, c] = Positive)
   \<and> (sentiment a = Some Positive \<and> sentiment c = Some Negative
        \<longrightarrow> calculateOverallSentiment [a, c] = Neutral)"
  by (auto simp: calculateOverallSentiment_def Let_def count_list_filter_eq)

theorem calculateOverallSentiment_net_vote_witness:
  "sentiment (exampleInteraction ''a'' 3 (Some Positive)) = Some Positive
   \<and> sentiment (exampleInteraction ''b'' 2 (Some Positive)) = Some Positive
   \<and> sentiment (exampleInteraction ''c'' 1 (Some Negative)) = Some Negative
   \<and> calculateOverallSentiment [exampleInteraction ''a'' 3 (Some Positive),
        exampleInteraction ''b'' 2 (Some Positive), exampleInteraction ''c'' 1 (Some Negative)] = Positive
   \<and> calculateOverallSentiment [exampleInteraction ''a'' 3 (Some Positive),
        exampleInteraction ''c'' 1 (Some Negative)] = Neutral"
  using calculateOverallSentiment_net_vote [of
      "[]" "exampleInteraction ''a'' 3 (Some Positive)"
      "exampleInteraction ''b'' 2 (Some Positive)" "exampleInteraction ''c'' 1 (Some Negative)"]
  by (simp add: exampleInteraction_def)

text \<open>
  The claim as stated fails: of the three sentiments [positive, neutral, neutral] two
  are neutral, so a majority vote is neutral, and the code answers positive.
\<close>

theorem calculateOverallSentiment_majority_counterexample:
  "calculateOverallSentiment
      [exampleInteraction ''a'' 3 (Some Positive), exampleInteraction ''b'' 2 (Some Neutral),
       exampleInteraction ''c'' 1 (Some Neutral)] = Positive
   \<and> majorityVote [Positive, Neutral, Neutral] = Neutral"
  by (simp add: calculateOverallSentiment_def majorityVote_def exampleInteraction_def)

section \<open>Weekly summaries\<close>

text \<open>
  Claim C4, as the code has it. \<open>compact\<close> turns every week group into exactly one
  output, in the order the groups were formed; the groups have distinct keys, none is
  empty, and a group holds the kept old interactions of its week in newest-first order.
  For a group with more than one member the output is a summary whose id is
  \<open>summary_<weekKey>\<close>, whose timestamp is that of the first member of the group, which
  is the newest (no member has a later timestamp), whose topics are the members' topics
  without duplicates, and whose sentiment is positive when the positive members outnumber
  the negative ones, negative when the negative outnumber the positive, neutral
  otherwise. A group with exactly one member yields that member unchanged.
\<close>

theorem week_group_summaries:
  "c_summarized (compactLocals cal now xs) = map (summarizeGroup cal) (weekGroups cal now xs)
   \<and> distinct (map fst (weekGroups cal now xs))
   \<and> (\<forall>(k, g) \<in> set (weekGroups cal now xs).
        g \<noteq> []
        \<and> g = filter (\<lambda>i. getWeekKey cal (timestamp i) = k) (c_toKeep (compactLocals cal now xs))
        \<and> (1 < length g \<longrightarrow>
             iid (summarizeGroup cal (k, g)) = ''summary_'' @ k
             \<and> timestamp (summarizeGroup cal (k, g)) = timestamp (hd g)
             \<and> (\<forall>i \<in> set g. timestamp i \<le> timestamp (summarizeGroup cal (k, g)))
             \<and> set (topics (summarizeGroup cal (k, g))) = (\<Union>i \<in> set g. set (topics i))
             \<and> distinct (topics (summarizeGroup cal (k, g)))
             \<and> sentiment (summarizeGroup cal (k, g)) =
                 Some (if count_list (definedSentiments g) Negative
                            < count_list (definedSentiments g) Positive then Positive
                       else if count_list (definedSentiments g) Positive
                            < count_list (definedSentiments g) Negative then Negative
                       else Neutral))
        \<and> (length g = 1 \<longrightarrow> summarizeGroup cal (k, g) = hd g \<and> g = [hd g]))"
proof (intro conjI)
  show "c_summarized (compactLocals cal now xs) = map (summarizeGroup cal) (weekGroups cal now xs)"
    by (rule summarized_groups)
  show "distinct (map fst (weekGroups cal now xs))"
    using groupByWeek_invariant [of cal "c_toKeep (compactLocals cal now xs)"]
    by (simp add: weekGroups_def)
  show "\<forall>(k, g) \<in> set (weekGroups cal now xs).
        g \<noteq> []
        \<and> g = filter (\<lambda>i. getWeekKey cal (timestamp i) = k) (c_toKeep (compactLocals cal now xs))
        \<and> (1 < length g \<longrightarrow>
             iid (summarizeGroup cal (k, g)) = ''summary_'' @ k
             \<and> timestamp (summarizeGroup cal (k, g)) = timestamp (hd g)
             \<and> (\<forall>i \<in> set g. timestamp i \<le> timestamp (summarizeGroup cal (k, g)))
             \<and> set (topics (summarizeGroup cal (k, g))) = (\<Union>i \<in> set g. set (topics i))
             \<and> distinct (topics (summarizeGroup cal (k, g)))
             \<and> sentiment (summarizeGroup cal (k, g)) =
                 Some (if count_list (definedSentiments g) Negative
                            < count_list (definedSentiments g) Positive then Positive
                       else if count_list (definedSentiments g) Positive
                            < count_list (definedSentiments g) Negative then Negative
                       else Neutral))
        \<and> (length g = 1 \<longrightarrow> summarizeGroup cal (k, g) = hd g \<and> g = [hd g])"
  proof (clarify, intro conjI impI)
    fix k g
    assume m: "(k, g) \<in> set (weekGroups cal now xs)"
    note w = weekGroups_member [OF m]
    show "g \<noteq> []" by (rule w(2))
    show "g = filter (\<lambda>i. getWeekKey cal (timestamp i) = k) (c_toKeep (compactLocals cal now xs))"
      by (rule w(1))
    {
      assume "1 < length g"
      then have n: "length g \<noteq> 1" by simp
      note s = summarizeGroup_many [OF n, of cal k]
      show "iid (summarizeGroup cal (k, g)) = ''summary_'' @ k" using s by simp
      show "timestamp (summarizeGroup cal (k, g)) = timestamp (hd g)" using s by simp
      show "\<forall>i \<in> set g. timestamp i \<le> timestamp (summarizeGroup cal (k, g))"
        using s newest_first_hd [OF w(3)] by simp
      show "set (topics (summarizeGroup cal (k, g))) = (\<Union>i \<in> set g. set (topics i))"
        using s by simp
      show "distinct (topics (summarizeGroup cal (k, g)))" using s by simp
      show "sentiment (summarizeGroup cal (k, g)) =
                 Some (if count_list (definedSentiments g) Negative
                            < count_list (definedSentiments g) Positive then Positive
                       else if count_list (definedSentiments g) Positive
                            < count_list (definedSentiments g) Negative then Negative
                       else Neutral)"
        using s by (simp add: determineOverallSentiment_net)
    }
    {
      assume "length g = 1"
      then show "summarizeGroup cal (k, g) = hd g" "g = [hd g]"
        using summarizeGroup_single [of g cal k] by simp_all
    }
  qed
qed

theorem week_group_summaries_witness:
  "weekGroups utcCalendar exampleNow exampleBatch
     = [(''2023-W39'', [exampleA, exampleB]), (''2023-W37'', [exampleS])]
   \<and> c_summarized (compactLocals utcCalendar exampleNow exampleBatch)
     = [summarizeGroup utcCalendar (''2023-W39'', [exampleA, exampleB]),
        summarizeGroup utcCalendar (''2023-W37'', [exampleS])]
   \<and> 1 < length [exampleA, exampleB]
   \<and> iid (summarizeGroup utcCalendar (''2023-W39'', [exampleA, exampleB])) = ''summary_2023-W39''
   \<and> timestamp (summarizeGroup utcCalendar (''2023-W39'', [exampleA, exampleB])) = timestamp exampleA
   \<and> set (topics (summarizeGroup utcCalendar (''2023-W39'', [exampleA, exampleB])))
       = {''pricing'', ''billing''}
   \<and> sentiment (summarizeGroup utcCalendar (''2023-W39'', [exampleA, exampleB])) = Some Positive
   \<and> length [exampleS] = 1
   \<and> summarizeGroup utcCalendar (''2023-W37'', [exampleS]) = exampleS"
proof -
  note inst = week_group_summaries [of utcCalendar exampleNow exampleBatch]
  note ball = inst [THEN conjunct2, THEN conjunct2]
  have t: "topics exampleA = [''pricing'', ''billing'']" "topics exampleB = [''pricing'']"
    "sentiment exampleA = Some Positive" "sentiment exampleB = Some Neutral"
    by (simp_all add: exampleA_def exampleB_def exampleInteraction_def)
  have m1: "(''2023-W39'', [exampleA, exampleB]) \<in> set (weekGroups utcCalendar exampleNow exampleBatch)"
    and m2: "(''2023-W37'', [exampleS]) \<in> set (weekGroups utcCalendar exampleNow exampleBatch)"
    by (simp_all add: example_groups)
  have s: "c_summarized (compactLocals utcCalendar exampleNow exampleBatch)
     = [summarizeGroup utcCalendar (''2023-W39'', [exampleA, exampleB]),
        summarizeGroup utcCalendar (''2023-W37'', [exampleS])]"
    using inst [THEN conjunct1] by (simp add: example_groups)
  have many: "iid (summarizeGroup utcCalendar (''2023-W39'', [exampleA, exampleB])) = ''summary_2023-W39''
     \<and> timestamp (summarizeGroup utcCalendar (''2023-W39'', [exampleA, exampleB])) = timestamp exampleA
     \<and> set (topics (summarizeGroup utcCalendar (''2023-W39'', [exampleA, exampleB])))
         = {''pricing'', ''billing''}
     \<and> sentiment (summarizeGroup utcCalendar (''2023-W39'', [exampleA, exampleB])) = Some Positive"
    using bspec [OF ball m1, unfolded prod.case, THEN conjunct2, THEN conjunct2, THEN conjunct1]
    by (simp add: t insert_commute)
  have single: "summarizeGroup utcCalendar (''2023-W37'', [exampleS]) = exampleS"
    using bspec [OF ball m2, unfolded prod.case, THEN conjunct2, THEN conjunct2, THEN conjunct2]
    by simp
  from s many single show ?thesis by (simp add: example_groups)
qed

text \<open>
  The claim as stated fails on the timestamp: in the batch below the week group of
  2023-W39 has the members \<open>exampleA\<close> (newer) and \<open>exampleB\<close> (older), and
  the summary carries the timestamp of \<open>exampleA\<close>, not of the earliest member.
\<close>

theorem summary_timestamp_counterexample:
  "c_toKeep (compactLocals utcCalendar exampleNow exampleBatch) = [exampleA, exampleB, exampleS]
   \<and> weekGroups utcCalendar exampleNow exampleBatch
       = [(''2023-W39'', [exampleA, exampleB]), (''2023-W37'', [exampleS])]
   \<and> timestamp exampleB < timestamp exampleA
   \<and> map timestamp (c_summarized (compactLocals utcCalendar exampleNow exampleBatch))
       = [timestamp exampleA, timestamp exampleS]"
  by (simp add: example_toKeep example_groups summarized_groups summarizeGroup_single
      summarizeGroup_many example_timestamps)

section \<open>Retention ceiling\<close>




section \<open>Key facts\<close>

text \<open>
  Claim C7. Every fact that \<open>extractKeyFacts\<close> returns is a commitment with
  confidence 0.7, a preference with confidence 0.6 or an objection with confidence 0.5;
  the text of a commitment or preference is its label followed by a clause of at least 6
  and fewer than 200 characters. Each interaction appends its own facts to those of the
  interactions before it: its commitment facts are exactly the trimmed clauses of the
  commitment patterns whose length is in that range, in order, the others being dropped,
  and likewise for preferences; its objection facts are at most one, for the first word
  of the objection list that occurs in the lower-cased text.
\<close>

theorem extractKeyFacts_policy:
  "(\<forall>f \<in> set (extractKeyFacts ids xs cid).
       (category f = Commitment \<and> confidence f = 7 / 10
          \<and> (\<exists>c. fact_text f = ''Commitment: '' @ c \<and> 6 \<le> length c \<and> length c < 200))
     \<or> (category f = Preference \<and> confidence f = 6 / 10
          \<and> (\<exists>c. fact_text f = ''Preference: '' @ c \<and> 6 \<le> length c \<and> length c < 200))
     \<or> (category f = Objection \<and> confidence f = 5 / 10
          \<and> (\<exists>w \<in> set objectionWords. fact_text f = ''Potential objection mentioned: '' @ w)))
   \<and> extractKeyFacts ids (xs @ [i]) cid
       = extractKeyFacts ids xs cid @ newFacts ids (extractKeyFacts ids xs cid) i
   \<and> map fact_text (filter (\<lambda>f. category f = Commitment) (newFacts ids facts i))
       = map ((@) ''Commitment: '')
           (filter (\<lambda>c. 6 \<le> length c \<and> length c < 200) (clauses commitmentPatterns i))
   \<and> map fact_text (filter (\<lambda>f. category f = Preference) (newFacts ids facts i))
       = map ((@) ''Preference: '')
           (filter (\<lambda>c. 6 \<le> length c \<and> length c < 200) (clauses preferencePatterns i))
   \<and> map fact_text (filter (\<lambda>f. category f = Objection) (newFacts ids facts i))
       = (case List.find (\<lambda>word. includesStr (objectionText i) word) objectionWords of
            None \<Rightarrow> []
          | Some word \<Rightarrow> [''Potential objection mentioned: '' @ word])
   \<and> length (filter (\<lambda>f. category f = Objection) (newFacts ids facts i)) \<le> 1
   \<and> length (filter (\<lambda>f. category f = Objection) (extractKeyFacts ids xs cid)) \<le> length xs"
proof (intro conjI)
  show "\<forall>f \<in> set (extractKeyFacts ids xs cid).
       (category f = Commitment \<and> confidence f = 7 / 10
          \<and> (\<exists>c. fact_text f = ''Commitment: '' @ c \<and> 6 \<le> length c \<and> length c < 200))
     \<or> (category f = Preference \<and> confidence f = 6 / 10
          \<and> (\<exists>c. fact_text f = ''Preference: '' @ c \<and> 6 \<le> length c \<and> length c < 200))
     \<or> (category f = Objection \<and> confidence f = 5 / 10
          \<and> (\<exists>w \<in> set objectionWords. fact_text f = ''Potential objection mentioned: '' @ w))"
    using extractKeyFacts_all_policy [of ids xs cid] unfolding factPolicy_def .
  have acc: "clauseAccepted = (\<lambda>c. 6 \<le> length c \<and> length c < 200)"
    by (rule ext) (rule clauseAccepted_range)
  note parts = newFacts_parts [of ids facts i, unfolded acc]
  show "extractKeyFacts ids (xs @ [i]) cid
       = extractKeyFacts ids xs cid @ newFacts ids (extractKeyFacts ids xs cid) i"
    using newFacts_parts [of ids "extractKeyFacts ids xs cid" i]
    by (simp only: extractKeyFacts_snoc)
  show "map fact_text (filter (\<lambda>f. category f = Commitment) (newFacts ids facts i))
       = map ((@) ''Commitment: '')
           (filter (\<lambda>c. 6 \<le> length c \<and> length c < 200) (clauses commitmentPatterns i))"
    using parts by (rule conjunct2 [THEN conjunct1])
  show "map fact_text (filter (\<lambda>f. category f = Preference) (newFacts ids facts i))
       = map ((@) ''Preference: '')
           (filter (\<lambda>c. 6 \<le> length c \<and> length c < 200) (clauses preferencePatterns i))"
    using parts by (rule conjunct2 [THEN conjunct2, THEN conjunct1])
  show "map fact_text (filter (\<lambda>f. category f = Objection) (newFacts ids facts i))
       = (case List.find (\<lambda>word. includesStr (objectionText i) word) objectionWords of
            None \<Rightarrow> []
          | Some word \<Rightarrow> [''Potential objection mentioned: '' @ word])"
    using parts by (rule conjunct2 [THEN conjunct2, THEN conjunct2])
  show "length (filter (\<lambda>f. category f = Objection) (newFacts ids facts i)) \<le> 1"
    by (rule newFacts_one_objection)
  show "length (filter (\<lambda>f. category f = Objection) (extractKeyFacts ids xs cid)) \<le> length xs"
    by (rule extractKeyFacts_objections)
qed

theorem extractKeyFacts_policy_witness:
  "hd (extractKeyFacts show_nat [exampleTalk] ''c'') \<in> set (extractKeyFacts show_nat [exampleTalk] ''c'')
   \<and> category (hd (extractKeyFacts show_nat [exampleTalk] ''c'')) = Commitment
   \<and> confidence (hd (extractKeyFacts show_nat [exampleTalk] ''c'')) = 7 / 10
   \<and> fact_text (hd (extractKeyFacts show_nat [exampleTalk] ''c'')) = ''Commitment: send the quote today''
   \<and> clauses commitmentPatterns exampleTalk = [''call'', ''send the quote today'']
   \<and> map fact_text (filter (\<lambda>f. category f = Commitment) (newFacts show_nat [] exampleTalk))
       = [''Commitment: send the quote today'']"
proof -
  let ?E = "extractKeyFacts show_nat [exampleTalk] ''c''"
  from exampleTalk_facts(1) have ne: "?E \<noteq> []" by auto
  then have m: "hd ?E \<in> set ?E" by simp
  from exampleTalk_facts(1) ne have c: "category (hd ?E) = Commitment"
    by (cases ?E) auto
  from exampleTalk_facts(2) ne have t: "fact_text (hd ?E) = ''Commitment: send the quote today''"
    by (cases ?E) auto
  note inst = extractKeyFacts_policy [of show_nat "[exampleTalk]" "''c''" exampleTalk "[]"]
  from bspec [OF inst [THEN conjunct1] m] c have cf: "confidence (hd ?E) = 7 / 10" by auto
  from inst [THEN conjunct2, THEN conjunct2, THEN conjunct1]
  have "map fact_text (filter (\<lambda>f. category f = Commitment) (newFacts show_nat [] exampleTalk))
       = [''Commitment: send the quote today'']"
    by (simp add: exampleTalk_facts(3))
  with m c cf t exampleTalk_facts(3) show ?thesis by blast
qed

section \<open>Relevance score\<close>

text \<open>
  Claim C8: the score is 0.5 * (1 - min(age / 90 days, 1)) + 0.3 * overlap + bonus and
  always lies in [0, 1]. The code follows the formula (lemma
  \<open>calculateRelevance_formula\<close>), and the score lies in [0, 1] for an interaction that
  is not in the future and has distinct topics (lemma \<open>calculateRelevance_range\<close>).
  But only the upper end of the age ratio is clamped: for an interaction dated 180 days
  after the current time the score is 1.5.
\<close>

theorem calculateRelevance_future_timestamp:
  "calculateRelevance exampleNow (exampleInteraction ''f'' (exampleNow + 15552000000) None) [] = 3 / 2
   \<and> 1 < calculateRelevance exampleNow (exampleInteraction ''f'' (exampleNow + 15552000000) None) []"
  by (simp add: calculateRelevance_def exampleInteraction_def)

section \<open>Round trip through the store\<close>

text \<open>
  Claim C9, as the code has it. On an initialized store the write of an entry returns
  exactly when the entry's interaction ids are pairwise distinct and none of them is the
  id of an interaction row of another contact, and likewise for its key-fact ids (each id
  is the primary key of its table). When the write returns, a read of the entry's contact
  returns an entry for that contact with as many interactions and as many key facts as
  were written, and with the same interaction ids and fact ids.
\<close>

theorem write_read_round_trip:
  "((\<exists>d'. storeContactMemory (Some d) memory = Inr d') \<longleftrightarrow>
      distinct (map iid (interactions memory))
      \<and> set (map iid (interactions memory))
          \<inter> set (map ir_id (filter (\<lambda>r. ir_contact_id r \<noteq> contactId memory) (interactions_tbl d))) = {}
      \<and> distinct (map fact_id (keyFacts memory))
      \<and> set (map fact_id (keyFacts memory))
          \<inter> set (map kr_id (filter (\<lambda>r. kr_contact_id r \<noteq> contactId memory) (key_facts_tbl d))) = {})
   \<and> (storeContactMemory (Some d) memory = Inr d' \<longrightarrow>
        (\<exists>entry. getContactMemory (Some d') (contactId memory) = Inr (Some entry)
           \<and> contactId entry = contactId memory
           \<and> length (interactions entry) = length (interactions memory)
           \<and> length (keyFacts entry) = length (keyFacts memory)
           \<and> set (map iid (interactions entry)) = set (map iid (interactions memory))
           \<and> set (map fact_id (keyFacts entry)) = set (map fact_id (keyFacts memory))))"
proof (rule conjI)
  show "(\<exists>d'. storeContactMemory (Some d) memory = Inr d') \<longleftrightarrow>
      distinct (map iid (interactions memory))
      \<and> set (map iid (interactions memory))
          \<inter> set (map ir_id (filter (\<lambda>r. ir_contact_id r \<noteq> contactId memory) (interactions_tbl d))) = {}
      \<and> distinct (map fact_id (keyFacts memory))
      \<and> set (map fact_id (keyFacts memory))
          \<inter> set (map kr_id (filter (\<lambda>r. kr_contact_id r \<noteq> contactId memory) (key_facts_tbl d))) = {}"
    (is "?returns \<longleftrightarrow> ?fresh")
  proof
    assume ?returns
    then obtain d1 where "storeContactMemory (Some d) memory = Inr d1" ..
    then show ?fresh by (rule storeContactMemory_returns)
  next
    assume ?fresh
    then have "storeContactMemory (Some d) memory = Inr (writtenDatabase d memory)"
      by (intro storeContactMemory_succeeds) simp_all
    then show ?returns ..
  qed
  show "storeContactMemory (Some d) memory = Inr d' \<longrightarrow>
        (\<exists>entry. getContactMemory (Some d') (contactId memory) = Inr (Some entry)
           \<and> contactId entry = contactId memory
           \<and> length (interactions entry) = length (interactions memory)
           \<and> length (keyFacts entry) = length (keyFacts memory)
           \<and> set (map iid (interactions entry)) = set (map iid (interactions memory))
           \<and> set (map fact_id (keyFacts entry)) = set (map fact_id (keyFacts memory)))"
  proof (rule impI)
    assume "storeContactMemory (Some d) memory = Inr d'"
    then have d': "d' = writtenDatabase d memory" by (rule storeContactMemory_result)
    show "\<exists>entry. getContactMemory (Some d') (contactId memory) = Inr (Some entry)
           \<and> contactId entry = contactId memory
           \<and> length (interactions entry) = length (interactions memory)
           \<and> length (keyFacts entry) = length (keyFacts memory)
           \<and> set (map iid (interactions entry)) = set (map iid (interactions memory))
           \<and> set (map fact_id (keyFacts entry)) = set (map fact_id (keyFacts memory))"
      unfolding d' getContactMemory_written
      by (simp add: image_image rowInteraction_def interactionRow_def rowKeyFact_def keyFactRow_def)
  qed
qed

theorem write_read_round_trip_witness:
  "distinct (map iid (interactions exampleEntry))
   \<and> distinct (map fact_id (keyFacts exampleEntry))
   \<and> storeContactMemory (Some (emptyDatabase True)) exampleEntry
     = Inr (writtenDatabase (emptyDatabase True) exampleEntry)
   \<and> (\<exists>entry. getContactMemory (Some (writtenDatabase (emptyDatabase True) exampleEntry)) ''c1''
                 = Inr (Some entry)
          \<and> length (interactions entry) = 2 \<and> length (keyFacts entry) = 1)"
proof -
  note inst = write_read_round_trip [of "emptyDatabase True" exampleEntry
      "writtenDatabase (emptyDatabase True) exampleEntry"]
  have c: "distinct (map iid (interactions exampleEntry))
      \<and> set (map iid (interactions exampleEntry))
          \<inter> set (map ir_id (filter (\<lambda>r. ir_contact_id r \<noteq> contactId exampleEntry)
                (interactions_tbl (emptyDatabase True)))) = {}
      \<and> distinct (map fact_id (keyFacts exampleEntry))
      \<and> set (map fact_id (keyFacts exampleEntry))
          \<inter> set (map kr_id (filter (\<lambda>r. kr_contact_id r \<noteq> contactId exampleEntry)
                (key_facts_tbl (emptyDatabase True)))) = {}"
    by (simp add: exampleEntry_def emptyDatabase_def exampleA_def exampleB_def
        exampleInteraction_def)
  from inst [THEN conjunct1] c obtain d' where
    s: "storeContactMemory (Some (emptyDatabase True)) exampleEntry = Inr d'" by blast
  from storeContactMemory_result [OF s] s
  have s': "storeContactMemory (Some (emptyDatabase True)) exampleEntry
     = Inr (writtenDatabase (emptyDatabase True) exampleEntry)" by simp
  from inst [THEN conjunct2] s'
  have "\<exists>entry. getContactMemory (Some (writtenDatabase (emptyDatabase True) exampleEntry))
            (contactId exampleEntry) = Inr (Some entry)
           \<and> contactId entry = contactId exampleEntry
           \<and> length (interactions entry) = length (interactions exampleEntry)
           \<and> length (keyFacts entry) = length (keyFacts exampleEntry)
           \<and> set (map iid (interactions entry)) = set (map iid (interactions exampleEntry))
           \<and> set (map fact_id (keyFacts entry)) = set (map fact_id (keyFacts exampleEntry))"
    by blast
  then have "\<exists>entry. getContactMemory (Some (writtenDatabase (emptyDatabase True) exampleEntry)) ''c1''
                 = Inr (Some entry)
          \<and> length (interactions entry) = 2 \<and> length (keyFacts entry) = 1"
    by (auto simp: exampleEntry_def)
  with c s' show ?thesis by blast
qed

text \<open>
  The claim as stated fails: an entry with two interactions and one key fact, whose ids
  are distinct, is written to a store where another contact already holds an interaction
  with the id of the second one. The write throws on the primary key after it has
  replaced the contact's row and inserted the first interaction, and a read then returns
  one interaction and no key fact.
\<close>

theorem write_collision_counterexample:
  "distinct (map iid (interactions exampleEntry))
   \<and> distinct (map fact_id (keyFacts exampleEntry))
   \<and> length (interactions exampleEntry) = 2
   \<and> length (keyFacts exampleEntry) = 1
   \<and> storeContactMemory (Some (emptyDatabase True)) exampleOtherEntry = Inr exampleSharedStore
   \<and> storeContactMemory (Some exampleSharedStore) exampleEntry
       = Inl (UniqueConstraintFailed,
              databaseAfter (storeContactMemory (Some exampleSharedStore) exampleEntry))
   \<and> readCounts (databaseAfter (storeContactMemory (Some exampleSharedStore) exampleEntry)) ''c1''
       = Some (1, 0)"
  by (simp add: storeContactMemory_def exampleSharedStore_def writtenDatabase_def Let_def
      deleteChildren_def upsertContact_def insertInteraction_def insertKeyFact_def
      exampleEntry_def exampleOtherEntry_def exampleA_def exampleB_def exampleInteraction_def
      emptyDatabase_def interactionRow_def keyFactRow_def databaseAfter_def readCounts_def
      getContactMemory_def)

section \<open>Appending to a contact without an entry\<close>

text \<open>
  Claim C10, as the code has it. For a contact without an entry, on an initialized
  store: when the interaction's id is not yet in the interactions table and the engine
  does not enforce foreign keys, \<open>addInteraction\<close> returns, the row is appended, and a
  read of the contact still finds nothing; when the id is already in the table the
  insert throws on the primary key; and when the engine enforces foreign keys the insert
  throws because the contact has no \<open>contact_memory\<close> row.
\<close>

theorem addInteraction_without_entry:
  "cid \<notin> set (map contact_id (contact_memory d)) \<Longrightarrow>
   (iid i \<notin> set (map ir_id (interactions_tbl d)) \<and> \<not> foreign_keys d \<longrightarrow>
      addInteraction (Some d) cid i now
        = Inr (d \<lparr> interactions_tbl := interactions_tbl d @ [interactionRow cid i] \<rparr>)
      \<and> getContactMemory
          (Some (d \<lparr> interactions_tbl := interactions_tbl d @ [interactionRow cid i] \<rparr>)) cid
        = Inr None)
   \<and> (iid i \<in> set (map ir_id (interactions_tbl d)) \<longrightarrow>
        addInteraction (Some d) cid i now = Inl (UniqueConstraintFailed, Some d))
   \<and> (iid i \<notin> set (map ir_id (interactions_tbl d)) \<and> foreign_keys d \<longrightarrow>
        addInteraction (Some d) cid i now = Inl (ForeignKeyConstraintFailed, Some d))"
proof (intro conjI impI)
  assume a: "cid \<notin> set (map contact_id (contact_memory d))"
  {
    assume b: "iid i \<notin> set (map ir_id (interactions_tbl d)) \<and> \<not> foreign_keys d"
    show "addInteraction (Some d) cid i now
        = Inr (d \<lparr> interactions_tbl := interactions_tbl d @ [interactionRow cid i] \<rparr>)"
      using b map_unchanged [OF a, of now]
      by (simp add: addInteraction_def insertInteraction_def)
    show "getContactMemory
          (Some (d \<lparr> interactions_tbl := interactions_tbl d @ [interactionRow cid i] \<rparr>)) cid
        = Inr None"
      using find_absent [OF a] by (simp add: getContactMemory_def)
  }
  {
    assume "iid i \<in> set (map ir_id (interactions_tbl d))"
    then show "addInteraction (Some d) cid i now = Inl (UniqueConstraintFailed, Some d)"
      by (simp add: addInteraction_def insertInteraction_def)
  }
  {
    assume "iid i \<notin> set (map ir_id (interactions_tbl d)) \<and> foreign_keys d"
    then show "addInteraction (Some d) cid i now = Inl (ForeignKeyConstraintFailed, Some d)"
      using a by (simp add: addInteraction_def insertInteraction_def)
  }
qed

theorem addInteraction_without_entry_witness:
  "''c9'' \<notin> set (map contact_id (contact_memory (emptyDatabase False)))
   \<and> iid exampleS \<notin> set (map ir_id (interactions_tbl (emptyDatabase False)))
   \<and> \<not> foreign_keys (emptyDatabase False)
   \<and> addInteraction (Some (emptyDatabase False)) ''c9'' exampleS exampleNow
       = Inr ((emptyDatabase False) \<lparr> interactions_tbl := [interactionRow ''c9'' exampleS] \<rparr>)
   \<and> getContactMemory
        (Some ((emptyDatabase False) \<lparr> interactions_tbl := [interactionRow ''c9'' exampleS] \<rparr>)) ''c9''
       = Inr None
   \<and> foreign_keys (emptyDatabase True)
   \<and> addInteraction (Some (emptyDatabase True)) ''c9'' exampleS exampleNow
       = Inl (ForeignKeyConstraintFailed, Some (emptyDatabase True))"
  using addInteraction_without_entry [of "''c9''" "emptyDatabase False" exampleS exampleNow]
    addInteraction_without_entry [of "''c9''" "emptyDatabase True" exampleS exampleNow]
  by (simp add: emptyDatabase_def)

text \<open>
  The claim as stated fails: appending the same interaction twice to a contact without an
  entry succeeds the first time and throws the second time, the id being the primary key;
  and on a store that enforces foreign keys already the first append throws.
\<close>

theorem addInteraction_duplicate_id_counterexample:
  "addInteraction (Some (emptyDatabase False)) ''c9'' exampleS exampleNow
     = Inr ((emptyDatabase False) \<lparr> interactions_tbl := [interactionRow ''c9'' exampleS] \<rparr>)
   \<and> getContactMemory
        (Some ((emptyDatabase False) \<lparr> interactions_tbl := [interactionRow ''c9'' exampleS] \<rparr>)) ''c9''
       = Inr None
   \<and> addInteraction
        (Some ((emptyDatabase False) \<lparr> interactions_tbl := [interactionRow ''c9'' exampleS] \<rparr>))
        ''c9'' exampleS exampleNow
       = Inl (UniqueConstraintFailed,
              Some ((emptyDatabase False) \<lparr> interactions_tbl := [interactionRow ''c9'' exampleS] \<rparr>))
   \<and> addInteraction (Some (emptyDatabase True)) ''c9'' exampleS exampleNow
       = Inl (ForeignKeyConstraintFailed, Some (emptyDatabase True))"
  by (simp add: addInteraction_def insertInteraction_def getContactMemory_def emptyDatabase_def
      interactionRow_def)

section \<open>The cap after a sync\<close>

text \<open>
  Claim C2, as the code has it. When \<open>syncContactFromGHL\<close> returns, a read of the
  contact returns an entry, and the number of its interactions is the number of
  interactions the sync passed to the write. If \<open>shouldCompact\<close> is false for the
  indexed batch that number is the number of messages; it is at most 100 if
  \<open>shouldCompact\<close> is true or the batch has at most 100 messages.
\<close>

theorem sync_stored_count:
  "syncContactFromGHL cal clock ids (Some d) loc cid ctx msgs = Inr d' \<Longrightarrow>
   (\<exists>stored. storedInteractions (Inr d') cid = Some stored
      \<and> length stored = length (finalInteractions cal clock (indexMessages msgs))
      \<and> (\<not> shouldCompact (clock 0) (indexMessages msgs) \<longrightarrow> length stored = length msgs)
      \<and> (shouldCompact (clock 0) (indexMessages msgs) \<or> length msgs \<le> 100
           \<longrightarrow> length stored \<le> 100))"
proof -
  assume a: "syncContactFromGHL cal clock ids (Some d) loc cid ctx msgs = Inr d'"
  let ?xs = "indexMessages msgs"
  have l: "length ?xs = length msgs" by (simp add: indexMessages_def)
  note f = finalInteractions_length [of clock ?xs cal]
  have 1: "\<not> shouldCompact (clock 0) ?xs \<longrightarrow> length (finalInteractions cal clock ?xs) = length msgs"
    using f l by simp
  have 2: "shouldCompact (clock 0) ?xs \<or> length msgs \<le> 100
      \<longrightarrow> length (finalInteractions cal clock ?xs) \<le> 100"
    using f l by (cases "shouldCompact (clock 0) ?xs") simp_all
  show ?thesis
    unfolding sync_result [OF a] using 1 2 by simp
qed

theorem sync_stored_count_witness:
  "syncContactFromGHL utcCalendar exampleClock show_nat (Some (emptyDatabase True))
       ''loc'' ''c1'' exampleContext exampleBacklog
     = Inr (writtenDatabase (emptyDatabase True)
              (syncEntry utcCalendar exampleClock show_nat ''loc'' ''c1'' exampleContext exampleBacklog))
   \<and> shouldCompact (exampleClock 0) (indexMessages exampleBacklog)
   \<and> (\<exists>stored. storedInteractions
          (Inr (writtenDatabase (emptyDatabase True)
              (syncEntry utcCalendar exampleClock show_nat ''loc'' ''c1'' exampleContext exampleBacklog)))
          ''c1'' = Some stored
        \<and> length stored \<le> 100)"
proof -
  have c: "shouldCompact (exampleClock 0) (indexMessages exampleBacklog)"
    unfolding exampleClock_def backlog_indexed by (rule backlog_should)
  from sync_stored_count [OF backlog_sync] c backlog_sync show ?thesis by auto
qed

text \<open>
  The claim as stated fails: a batch of 101 messages that are all recent is not compacted
  (fewer than 21 are older than 30 days) and is stored whole.
\<close>

theorem sync_over_cap_counterexample:
  "map_option length
     (storedInteractions
        (syncContactFromGHL utcCalendar exampleClock show_nat (Some (emptyDatabase True))
           ''loc'' ''c1'' exampleContext (recentMessages 101)) ''c1'')
   = Some 101"
proof -
  let ?ys = "map (indexedExample CHR ''r'' 1699990000000) [0..<101]"
  have x: "indexMessages (recentMessages 101) = ?ys"
    by (simp add: recentMessages_def indexMessages_example)
  have f: "finalInteractions utcCalendar exampleClock ?ys = ?ys"
    using finalInteractions_length [of exampleClock ?ys utcCalendar] recent_not_compacted
    by simp
  have s: "syncContactFromGHL utcCalendar exampleClock show_nat (Some (emptyDatabase True))
           ''loc'' ''c1'' exampleContext (recentMessages 101)
     = Inr (writtenDatabase (emptyDatabase True)
              (syncEntry utcCalendar exampleClock show_nat ''loc'' ''c1'' exampleContext (recentMessages 101)))"
  proof (rule sync_on_empty_store)
    show "distinct (map iid (finalInteractions utcCalendar exampleClock (indexMessages (recentMessages 101))))"
      unfolding x f by (rule indexed_ids_distinct)
    show "extractKeyFacts show_nat (indexMessages (recentMessages 101)) ''c1'' = []"
      unfolding x by (rule extractKeyFacts_empty_content) (rule indexed_content)
  qed
  show ?thesis
    unfolding s sync_result [OF s] x f by simp
qed

section \<open>What a compacting sync writes\<close>

text \<open>
  Claim C1: when \<open>shouldCompact\<close> holds, \<open>compact\<close> returns the kept set (recent
  interactions plus weekly summaries) and the sync writes exactly that set. The code at
  a batch of 100 messages, 79 recent and 21 that are 40 days old and fall into one week:
  \<open>shouldCompact\<close> holds and \<open>compact\<close> builds the 79 recent interactions plus one
  weekly summary, but it returns the counts only, and the sync writes the first 80
  interactions of the sorted batch, the 79 recent ones and the first of the aged ones,
  not the summary.
\<close>

theorem sync_stores_prefix_not_summaries:
  "shouldCompact (exampleClock 0) (indexMessages exampleBacklog)
   \<and> fst (compactRun utcCalendar (exampleClock 1) (indexMessages exampleBacklog))
       = \<lparr> originalCount = 100, compactedCount = 80, summarized = 1, removed = 0 \<rparr>
   \<and> map iid (c_final (compactLocals utcCalendar (exampleClock 1) (indexMessages exampleBacklog)))
       = map iid (indexMessages (recentMessages 79)) @ [''summary_2023-W39'']
   \<and> map_option (map iid)
        (storedInteractions
           (syncContactFromGHL utcCalendar exampleClock show_nat (Some (emptyDatabase True))
              ''loc'' ''c1'' exampleContext exampleBacklog) ''c1'')
       = Some (map iid (indexMessages (recentMessages 79)) @ [''o''])"
proof (intro conjI)
  show "shouldCompact (exampleClock 0) (indexMessages exampleBacklog)"
    unfolding exampleClock_def backlog_indexed by (rule backlog_should)
  show "fst (compactRun utcCalendar (exampleClock 1) (indexMessages exampleBacklog))
       = \<lparr> originalCount = 100, compactedCount = 80, summarized = 1, removed = 0 \<rparr>"
    unfolding exampleClock_def backlog_indexed by (rule backlog_counts)
  have r: "indexMessages (recentMessages 79) = map (indexedExample CHR ''r'' 1699990000000) [0..<79]"
    by (simp add: recentMessages_def indexMessages_example)
  have "iid (summarizeGroup utcCalendar
           (''2023-W39'', map (indexedExample CHR ''o'' 1696544000000) [0..<21]))
      = ''summary_2023-W39''"
    using summarizeGroup_many [of "map (indexedExample CHR ''o'' 1696544000000) [0..<21]"
        utcCalendar "''2023-W39''"]
    by simp
  then show "map iid (c_final (compactLocals utcCalendar (exampleClock 1) (indexMessages exampleBacklog)))
       = map iid (indexMessages (recentMessages 79)) @ [''summary_2023-W39'']"
    unfolding exampleClock_def backlog_indexed backlog_final r by simp
  show "map_option (map iid)
        (storedInteractions
           (syncContactFromGHL utcCalendar exampleClock show_nat (Some (emptyDatabase True))
              ''loc'' ''c1'' exampleContext exampleBacklog) ''c1'')
       = Some (map iid (indexMessages (recentMessages 79)) @ [''o''])"
    unfolding backlog_stored r option.map stored_ids by (simp add: indexedExample_def)
qed

end
